theory Spec2Isabelle
  imports Main "HOL-Library.Word"
begin

unbundle bit_operations_syntax

section \<open>Data model\<close>

text \<open>
  The module \<open>src/netlog/probes.c\<close> keeps two file-scope variables, \<open>initialized\<close> (u8)
  and \<open>loaded_probes\<close> (u32), both zero when the module is loaded, and five statically
  allocated probe descriptors.  Everything else it touches belongs to the kernel or to
  other files of the module; those parts are collected in the record \<open>kernel\<close> below.
\<close>

type_synonym u8 = "8 word"
type_synonym u16 = "16 word"
type_synonym u32 = "32 word"
type_synonym ulong = "64 word"

text \<open>The five probe descriptors of the file (four kretprobes and the jprobe on sys_close).\<close>

datatype hook =
    stream_connect_kretprobe
  | dgram_connect_kretprobe
  | accept_kretprobe
  | close_jprobe
  | bind_kretprobe

text \<open>
  Modelled from the spec: the enumeration \<open>PROBE_*\<close> is declared in \<open>probes.h\<close>, which is
  not among the sources.  The spec lists the six probe kinds in the order of
  \<open>probe_list\<close> and gives TCP_CONNECT the mask 0b000001, so the kinds are numbered 0 to 5
  in that order.
\<close>

definition PROBE_TCP_CONNECT :: nat where "PROBE_TCP_CONNECT = 0"
definition PROBE_TCP_ACCEPT :: nat where "PROBE_TCP_ACCEPT = 1"
definition PROBE_TCP_CLOSE :: nat where "PROBE_TCP_CLOSE = 2"
definition PROBE_UDP_CONNECT :: nat where "PROBE_UDP_CONNECT = 3"
definition PROBE_UDP_BIND :: nat where "PROBE_UDP_BIND = 4"
definition PROBE_UDP_CLOSE :: nat where "PROBE_UDP_CLOSE = 5"

text \<open>\<open>struct probes\<close> and the table \<open>probe_list\<close>.\<close>

record probes =
  name :: string
  mask :: u32

definition probe_list :: "probes list" where
  "probe_list =
    [ \<lparr>name = ''tcp_connect'', mask = push_bit PROBE_TCP_CONNECT 1\<rparr>,
      \<lparr>name = ''tcp_accept'',  mask = push_bit PROBE_TCP_ACCEPT 1\<rparr>,
      \<lparr>name = ''tcp_close'',   mask = push_bit PROBE_TCP_CLOSE 1\<rparr>,
      \<lparr>name = ''udp_connect'', mask = push_bit PROBE_UDP_CONNECT 1\<rparr>,
      \<lparr>name = ''udp_bind'',    mask = push_bit PROBE_UDP_BIND 1\<rparr>,
      \<lparr>name = ''udp_close'',   mask = push_bit PROBE_UDP_CLOSE 1\<rparr> ]"

text \<open>
  Modelled from the spec: the protocol and action codes \<open>PROTO_*\<close> and \<open>ACTION_*\<close> come
  from a header that is not among the sources; the spec gives a network event the
  protocol {TCP, UDP} and the action {CONNECT, ACCEPT, CLOSE, BIND}.
\<close>

datatype proto = PROTO_TCP | PROTO_UDP
datatype action = ACTION_CONNECT | ACTION_ACCEPT | ACTION_CLOSE | ACTION_BIND

text \<open>Address families and IP protocol numbers of the Linux headers.\<close>

definition AF_INET :: u16 where "AF_INET = 2"
definition AF_INET6 :: u16 where "AF_INET6 = 10"
definition IPPROTO_TCP :: u8 where "IPPROTO_TCP = 6"
definition IPPROTO_UDP :: u8 where "IPPROTO_UDP = 17"
definition EBADF :: int where "EBADF = 9"

text \<open>
  The part of \<open>struct sock\<close> (with its \<open>inet_sock\<close> and \<open>ipv6_pinfo\<close> views) that the file
  reads.  Ports are kept as stored, in network byte order.  A \<open>struct socket\<close> holds the
  pointer \<open>sk\<close>, which may be NULL.
\<close>

record sock =
  sk_family :: u16
  sk_protocol :: u8
  DPORT :: u16
  SPORT :: u16
  DADDR :: u32
  SADDR :: u32
  sk_v6_daddr :: "128 word"
  pinet6_daddr :: "128 word"
  pinet6_saddr :: "128 word"

record socket =
  sk :: "sock option"

text \<open>\<open>current->mm\<close> and \<open>mm->exe_file\<close>; both pointers may be NULL.\<close>

record struct_file =
  f_path :: string

record mm_struct =
  exe_file :: "struct_file option"

record task_struct =
  mm :: "mm_struct option"

text \<open>
  A pointer to an address inside the socket: NULL is \<open>None\<close>, otherwise the address it
  points to.
\<close>

datatype ip_addr = IPv4 u32 | IPv6 "128 word"

text \<open>The arguments of one call of \<open>store_netlog_record\<close>.\<close>

record netlog_record =
  rec_path :: string
  rec_action :: action
  rec_protocol :: proto
  rec_family :: u16
  rec_src_ip :: "ip_addr option"
  rec_src_port :: int
  rec_dst_ip :: "ip_addr option"
  rec_dst_port :: int

text \<open>One call of an instrumentation primitive, with the value a plant call returned.\<close>

datatype prim_call = Plant hook int | Unplant hook

text \<open>
  The functions of the kernel and of the other files of the module that \<open>probes.c\<close> calls.
  \<^item> \<open>current\<close>: the running task (the file tests it against NULL);
  \<^item> \<open>sockfd_lookup\<close>: the socket behind a descriptor, or NULL;
  \<^item> \<open>d_path\<close>: renders a path into a buffer of the given length, \<open>None\<close> for an error
    pointer;
  \<^item> \<open>is_whitelisted\<close>: the whitelist gate of \<open>whitelist.h\<close>, an int read as a truth value;
  \<^item> \<open>kstrtoul\<close>: the parser, returning its status and the parsed value;
  \<^item> \<open>plant_errno\<close>: what the instrumentation subsystem answers to a plant call, as a
    function of the number of primitive calls made before it: 0 for success, otherwise
    the errno of the failure.
\<close>

record kernel =
  current :: "task_struct option"
  sockfd_lookup :: "u32 \<Rightarrow> socket option"
  d_path :: "string \<Rightarrow> nat \<Rightarrow> string option"
  is_whitelisted :: "string \<Rightarrow> u16 \<Rightarrow> ip_addr option \<Rightarrow> int \<Rightarrow> int"
  kstrtoul :: "string \<Rightarrow> nat \<Rightarrow> int \<times> ulong"
  plant_errno :: "nat \<Rightarrow> nat"

text \<open>
  Compile-time constants whose defining headers (\<open>netlog.h\<close> of the module, \<open>probes.h\<close>,
  \<open>internal.h\<close>) are not among the sources; they are parameters of the model.
\<close>

record config =
  DEFAULT_PROBES :: u32
  CONNECT_PROBE_FAILED :: int
  ACCEPT_PROBE_FAILED :: int
  CLOSE_PROBE_FAILED :: int
  BIND_PROBE_FAILED :: int
  MAX_EXEC_PATH :: nat
  LINUX_VERSION_CODE :: nat

definition KERNEL_VERSION :: "nat \<Rightarrow> nat \<Rightarrow> nat \<Rightarrow> nat" where
  "KERNEL_VERSION a b c = a * 65536 + b * 256 + c"

text \<open>
  Modelled from the spec: the switch \<open>WHITELISTING\<close> is defined in a header that is not
  among the sources; in the spec the classifier always consults the whitelist gate, so the
  switch is on.
\<close>

definition WHITELISTING :: bool where "WHITELISTING = True"

text \<open>
  The state the file reads and writes: its two variables, which physical hooks are
  registered, the primitive calls made so far, and the records handed to the log sink so
  far.
\<close>

record kstate =
  initialized :: u8
  loaded_probes :: u32
  planted :: "hook set"
  calls :: "prim_call list"
  records :: "netlog_record list"

definition init_state :: kstate where
  "init_state = \<lparr>initialized = 0, loaded_probes = 0, planted = {}, calls = [], records = []\<rparr>"

section \<open>Instrumentation primitives\<close>

text \<open>
  Modelled from the spec: \<open>plant_kretprobe\<close>, \<open>plant_jprobe\<close>, \<open>unplant_kretprobe\<close> and
  \<open>unplant_jprobe\<close> live in \<open>lib/probes_helper.h\<close>, which is not among the sources.  The
  spec gives them as \<open>plant(point) -> Result<(), PlatformError>\<close> and \<open>unplant(point)\<close>:
  a plant call returns 0 and registers the hook, or returns a negative errno and registers
  nothing; an unplant call removes the hook and returns nothing.
\<close>

definition plant_kretprobe :: "kernel \<Rightarrow> hook \<Rightarrow> kstate \<Rightarrow> int \<times> kstate" where
  "plant_kretprobe k h s =
    (let err = - int (plant_errno k (length (calls s)))
     in (err, s\<lparr>planted := (if err = 0 then insert h (planted s) else planted s),
                calls := calls s @ [Plant h err]\<rparr>))"

definition plant_jprobe :: "kernel \<Rightarrow> hook \<Rightarrow> kstate \<Rightarrow> int \<times> kstate" where
  "plant_jprobe k h s =
    (let err = - int (plant_errno k (length (calls s)))
     in (err, s\<lparr>planted := (if err = 0 then insert h (planted s) else planted s),
                calls := calls s @ [Plant h err]\<rparr>))"

definition unplant_kretprobe :: "hook \<Rightarrow> kstate \<Rightarrow> kstate" where
  "unplant_kretprobe h s = s\<lparr>planted := planted s - {h}, calls := calls s @ [Unplant h]\<rparr>"

definition unplant_jprobe :: "hook \<Rightarrow> kstate \<Rightarrow> kstate" where
  "unplant_jprobe h s = s\<lparr>planted := planted s - {h}, calls := calls s @ [Unplant h]\<rparr>"

section \<open>Planting and unplanting probes\<close>

text \<open>\<open>unplant_probes\<close>: the mask is updated first, by exclusive or.\<close>

definition unplant_probes :: "u32 \<Rightarrow> kstate \<Rightarrow> kstate" where
  "unplant_probes removed_probes s0 =
    (let s1 = s0\<lparr>loaded_probes := loaded_probes s0 XOR removed_probes\<rparr>;
         s2 = (if removed_probes AND (push_bit PROBE_TCP_CONNECT 1) \<noteq> 0
               then unplant_kretprobe stream_connect_kretprobe s1 else s1);
         s3 = (if removed_probes AND (push_bit PROBE_TCP_ACCEPT 1) \<noteq> 0
               then unplant_kretprobe accept_kretprobe s2 else s2);
         s4 = (if removed_probes AND ((push_bit PROBE_TCP_CLOSE 1) OR (push_bit PROBE_UDP_CLOSE 1)) \<noteq> 0
               then (if \<not> (loaded_probes s3 AND ((push_bit PROBE_TCP_CLOSE 1) OR (push_bit PROBE_UDP_CLOSE 1)) \<noteq> 0)
                     then unplant_jprobe close_jprobe s3 else s3)
               else s3);
         s5 = (if removed_probes AND (push_bit PROBE_UDP_CONNECT 1) \<noteq> 0
               then unplant_kretprobe dgram_connect_kretprobe s4 else s4);
         s6 = (if removed_probes AND (push_bit PROBE_UDP_BIND 1) \<noteq> 0
               then unplant_kretprobe bind_kretprobe s5 else s5)
     in s6)"

definition unplant_all :: "kstate \<Rightarrow> kstate" where
  "unplant_all s = unplant_probes (loaded_probes s) s"

text \<open>
  \<open>plant_probes\<close>: six blocks in sequence.  A block either returns from the function
  (\<open>Inl\<close>, with the returned value and the state reached) or falls through to the next
  block (\<open>Inr\<close>, with the local \<open>err\<close> and the state).
\<close>

definition plant_probes :: "config \<Rightarrow> kernel \<Rightarrow> u32 \<Rightarrow> kstate \<Rightarrow> int \<times> kstate" where
  "plant_probes cfg k new_probes s0 =
    (case (if new_probes AND (push_bit PROBE_TCP_CONNECT 1) \<noteq> 0
           then (case plant_kretprobe k stream_connect_kretprobe s0 of (err, s) \<Rightarrow>
                   if err < 0 then Inl (- CONNECT_PROBE_FAILED cfg, s)
                   else Inr (err, s\<lparr>loaded_probes := loaded_probes s OR (push_bit PROBE_TCP_CONNECT 1)\<rparr>))
           else Inr (0, s0))
     of Inl r \<Rightarrow> r | Inr (err1, s1) \<Rightarrow>
    (case (if new_probes AND (push_bit PROBE_TCP_ACCEPT 1) \<noteq> 0
           then (case plant_kretprobe k accept_kretprobe s1 of (err, s) \<Rightarrow>
                   if err < 0 then Inl (- ACCEPT_PROBE_FAILED cfg, s)
                   else Inr (err, s\<lparr>loaded_probes := loaded_probes s OR (push_bit PROBE_TCP_ACCEPT 1)\<rparr>))
           else Inr (err1, s1))
     of Inl r \<Rightarrow> r | Inr (err2, s2) \<Rightarrow>
    (case (if new_probes AND (push_bit PROBE_TCP_CLOSE 1) \<noteq> 0
           then (if \<not> (loaded_probes s2 AND (push_bit PROBE_UDP_CLOSE 1) \<noteq> 0)
                 then (case plant_jprobe k close_jprobe s2 of (err, s) \<Rightarrow>
                         if err < 0 then Inl (- CLOSE_PROBE_FAILED cfg, s)
                         else Inr (err, s\<lparr>loaded_probes := loaded_probes s OR (push_bit PROBE_TCP_CLOSE 1)\<rparr>))
                 else Inr (err2, s2\<lparr>loaded_probes := loaded_probes s2 OR (push_bit PROBE_TCP_CLOSE 1)\<rparr>))
           else Inr (err2, s2))
     of Inl r \<Rightarrow> r | Inr (err3, s3) \<Rightarrow>
    (case (if new_probes AND (push_bit PROBE_UDP_CONNECT 1) \<noteq> 0
           then (case plant_kretprobe k dgram_connect_kretprobe s3 of (err, s) \<Rightarrow>
                   if err \<noteq> 0 then Inl (- CONNECT_PROBE_FAILED cfg, s)
                   else Inr (err, s\<lparr>loaded_probes := loaded_probes s OR (push_bit PROBE_UDP_CONNECT 1)\<rparr>))
           else Inr (err3, s3))
     of Inl r \<Rightarrow> r | Inr (err4, s4) \<Rightarrow>
    (case (if new_probes AND (push_bit PROBE_UDP_BIND 1) \<noteq> 0
           then (case plant_kretprobe k bind_kretprobe s4 of (err, s) \<Rightarrow>
                   if err < 0 then Inl (- BIND_PROBE_FAILED cfg, s)
                   else Inr (err, s\<lparr>loaded_probes := loaded_probes s OR (push_bit PROBE_UDP_BIND 1)\<rparr>))
           else Inr (err4, s4))
     of Inl r \<Rightarrow> r | Inr (err5, s5) \<Rightarrow>
    (case (if new_probes AND (push_bit PROBE_UDP_CLOSE 1) \<noteq> 0
           then (if \<not> (loaded_probes s5 AND (push_bit PROBE_TCP_CLOSE 1) \<noteq> 0)
                 then (case plant_jprobe k close_jprobe s5 of (err, s) \<Rightarrow>
                         if err < 0 then Inl (- CLOSE_PROBE_FAILED cfg, s)
                         else Inr (err, s\<lparr>loaded_probes := loaded_probes s OR (push_bit PROBE_UDP_CLOSE 1)\<rparr>))
                 else Inr (err5, s5\<lparr>loaded_probes := loaded_probes s5 OR (push_bit PROBE_UDP_CLOSE 1)\<rparr>))
           else Inr (err5, s5))
     of Inl r \<Rightarrow> r | Inr (err6, s6) \<Rightarrow> (err6, s6)))))))"

section \<open>First-use initialisation and the parameter setters\<close>

text \<open>
  The functions below run between \<open>spin_lock_irqsave\<close> and \<open>spin_unlock_irqrestore\<close> on
  \<open>probe_lock\<close>; the model is sequential, one call at a time, which is what the lock
  enforces.
\<close>

definition probes_init :: "config \<Rightarrow> kernel \<Rightarrow> kstate \<Rightarrow> int \<times> kstate" where
  "probes_init cfg k s0 =
    (if initialized s0 \<noteq> 0
     then (case plant_probes cfg k (DEFAULT_PROBES cfg) s0 of (ret, s) \<Rightarrow>
             if ret \<ge> 0 then (ret, s\<lparr>initialized := 1\<rparr>) else (ret, s))
     else (0, s0))"

text \<open>
  \<open>all_probes_param_set\<close>: \<open>wanted_probes\<close> is an unsigned long (64 bits on x86-64; with the
  32 bits of x86-32 the conversions below are the identity and the two masks are the
  same), the two differences are computed at that width and stored in u32 variables.  The
  parameter \<open>kp\<close> is not used.
\<close>

definition all_probes_param_set :: "config \<Rightarrow> kernel \<Rightarrow> string \<Rightarrow> kstate \<Rightarrow> int \<times> kstate" where
  "all_probes_param_set cfg k buf s0 =
    (case kstrtoul k buf 16 of (ret, wanted_probes) \<Rightarrow>
      if ret < 0 then (ret, s0)
      else
        (case (if initialized s0 \<noteq> 0
               then (case plant_probes cfg k (DEFAULT_PROBES cfg) s0 of (ret, s) \<Rightarrow>
                       if ret < 0 then Inl (ret, s) else Inr (s\<lparr>initialized := 1\<rparr>))
               else Inr s0)
         of Inl r \<Rightarrow> r
          | Inr s1 \<Rightarrow>
            (let probes_to_add = (ucast (wanted_probes AND ucast (NOT (loaded_probes s1))) :: u32);
                 probes_to_remove = (ucast ((NOT wanted_probes) AND ucast (loaded_probes s1)) :: u32);
                 s2 = unplant_probes probes_to_remove s1
             in plant_probes cfg k probes_to_add s2)))"

text \<open>
  \<open>one_probe_param_set\<close>: \<open>arg\<close> is \<open>kp->arg\<close>, NULL or a pointer to a \<open>struct probes\<close>;
  \<open>val\<close> is the local \<open>value\<close>.
\<close>

definition one_probe_param_set ::
  "config \<Rightarrow> kernel \<Rightarrow> string \<Rightarrow> probes option \<Rightarrow> kstate \<Rightarrow> int \<times> kstate" where
  "one_probe_param_set cfg k buf arg s0 =
    (case arg of
       None \<Rightarrow> (- EBADF, s0)
     | Some probe \<Rightarrow>
        (case kstrtoul k buf 0 of (ret, val) \<Rightarrow>
          if ret < 0 then (ret, s0)
          else
            (case (if initialized s0 \<noteq> 0
                   then (case plant_probes cfg k (DEFAULT_PROBES cfg) s0 of (ret, s) \<Rightarrow>
                           if ret < 0 then Inl (ret, s) else Inr (ret, s\<lparr>initialized := 1\<rparr>))
                   else Inr (0, s0))
             of Inl r \<Rightarrow> r
              | Inr (ret, s1) \<Rightarrow>
                if val \<noteq> 0
                then (if mask probe AND NOT (loaded_probes s1) \<noteq> 0
                      then plant_probes cfg k (mask probe) s1
                      else (ret, s1))
                else (if mask probe AND loaded_probes s1 \<noteq> 0
                      then (ret, unplant_probes (mask probe) s1)
                      else (ret, s1)))))"

section \<open>Event classification\<close>

definition path_from_mm :: "kernel \<Rightarrow> mm_struct option \<Rightarrow> nat \<Rightarrow> string option" where
  "path_from_mm k mm_ptr len =
    (case mm_ptr of
       None \<Rightarrow> None
     | Some m \<Rightarrow>
        (case exe_file m of
           None \<Rightarrow> None
         | Some f \<Rightarrow> d_path k (f_path f) len))"

text \<open>The file builds on x86 only, where \<open>ntohs\<close> swaps the two bytes.\<close>

definition ntohs :: "u16 \<Rightarrow> u16" where
  "ntohs x = push_bit 8 x OR drop_bit 8 x"

text \<open>
  \<open>log_if_not_whitelisted\<close>: its comment requires \<open>sock\<close> and \<open>sock->sk\<close> to be non-null, and
  it reads \<open>current->mm\<close> without a test, so the model takes the task and the
  \<open>struct sock\<close> themselves.
\<close>

definition log_if_not_whitelisted ::
  "config \<Rightarrow> kernel \<Rightarrow> task_struct \<Rightarrow> sock \<Rightarrow> proto \<Rightarrow> action \<Rightarrow> kstate \<Rightarrow> kstate" where
  "log_if_not_whitelisted cfg k cur sk_ptr protocol act s =
    (case path_from_mm k (mm cur) (MAX_EXEC_PATH cfg) of
       None \<Rightarrow> s
     | Some path \<Rightarrow>
        (let family = sk_family sk_ptr;
             dst_port = uint (ntohs (DPORT sk_ptr));
             src_port = uint (ntohs (SPORT sk_ptr));
             dst_ip = (if family = AF_INET then Some (IPv4 (DADDR sk_ptr))
                       else if family = AF_INET6
                       then (if LINUX_VERSION_CODE cfg > KERNEL_VERSION 3 13 0
                             then Some (IPv6 (sk_v6_daddr sk_ptr))
                             else Some (IPv6 (pinet6_daddr sk_ptr)))
                       else None);
             src_ip = (if family = AF_INET then Some (IPv4 (SADDR sk_ptr))
                       else if family = AF_INET6 then Some (IPv6 (pinet6_saddr sk_ptr))
                       else None)
         in if WHITELISTING \<and> is_whitelisted k path family dst_ip dst_port \<noteq> 0
            then s
            else s\<lparr>records := records s @
                     [\<lparr>rec_path = path, rec_action = act, rec_protocol = protocol,
                       rec_family = family, rec_src_ip = src_ip, rec_src_port = src_port,
                       rec_dst_ip = dst_ip, rec_dst_port = dst_port\<rparr>]\<rparr>))"

text \<open>
  \<open>pre_sys_close\<close>: the reference taken by \<open>sockfd_lookup\<close> is given back by \<open>sockfd_put\<close>
  on every path where the socket is not NULL; the model keeps no reference counts.  The
  function always returns 0.
\<close>

definition pre_sys_close :: "config \<Rightarrow> kernel \<Rightarrow> u32 \<Rightarrow> kstate \<Rightarrow> int \<times> kstate" where
  "pre_sys_close cfg k fd s =
    (case current k of
       None \<Rightarrow> (0, s)
     | Some cur \<Rightarrow>
        (case sockfd_lookup k fd of
           None \<Rightarrow> (0, s)
         | Some so \<Rightarrow>
            (case sk so of
               None \<Rightarrow> (0, s)
             | Some sk_ptr \<Rightarrow>
                if sk_family sk_ptr \<noteq> AF_INET \<and> sk_family sk_ptr \<noteq> AF_INET6 then (0, s)
                else if loaded_probes s AND push_bit PROBE_TCP_CLOSE 1 \<noteq> 0 \<and>
                        sk_protocol sk_ptr = IPPROTO_TCP \<and>
                        DPORT sk_ptr \<noteq> 0
                then (0, log_if_not_whitelisted cfg k cur sk_ptr PROTO_TCP ACTION_CLOSE s)
                else if loaded_probes s AND push_bit PROBE_UDP_CLOSE 1 \<noteq> 0 \<and>
                        sk_protocol sk_ptr = IPPROTO_UDP \<and>
                        SPORT sk_ptr \<noteq> 0
                then (0, log_if_not_whitelisted cfg k cur sk_ptr PROTO_UDP ACTION_CLOSE s)
                else (0, s))))"

section \<open>Auxiliary definitions for the proofs\<close>

text \<open>
  The six blocks of \<open>plant_probes\<close> have one shape.  The definitions below name the probe
  kinds, give each kind the bit, the descriptor, the failure test and the error tag its
  block uses, and replay the blocks in the order of the source; \<open>plant_probes\<close> is proved
  equal to this replay (lemma \<open>plant_probes_merge\<close>), so that properties of the function
  follow by induction on the list of kinds.
\<close>

datatype probe_kind = TCP_CONNECT | TCP_ACCEPT | TCP_CLOSE | UDP_CONNECT | UDP_BIND | UDP_CLOSE

fun kind_bit :: "probe_kind \<Rightarrow> nat" where
  "kind_bit TCP_CONNECT = PROBE_TCP_CONNECT"
| "kind_bit TCP_ACCEPT = PROBE_TCP_ACCEPT"
| "kind_bit TCP_CLOSE = PROBE_TCP_CLOSE"
| "kind_bit UDP_CONNECT = PROBE_UDP_CONNECT"
| "kind_bit UDP_BIND = PROBE_UDP_BIND"
| "kind_bit UDP_CLOSE = PROBE_UDP_CLOSE"

fun kind_hook :: "probe_kind \<Rightarrow> hook" where
  "kind_hook TCP_CONNECT = stream_connect_kretprobe"
| "kind_hook TCP_ACCEPT = accept_kretprobe"
| "kind_hook TCP_CLOSE = close_jprobe"
| "kind_hook UDP_CONNECT = dgram_connect_kretprobe"
| "kind_hook UDP_BIND = bind_kretprobe"
| "kind_hook UDP_CLOSE = close_jprobe"

text \<open>The error tag of the family of a kind, as the block of that kind returns it (negated).\<close>

fun kind_tag :: "config \<Rightarrow> probe_kind \<Rightarrow> int" where
  "kind_tag cfg TCP_CONNECT = CONNECT_PROBE_FAILED cfg"
| "kind_tag cfg TCP_ACCEPT = ACCEPT_PROBE_FAILED cfg"
| "kind_tag cfg TCP_CLOSE = CLOSE_PROBE_FAILED cfg"
| "kind_tag cfg UDP_CONNECT = CONNECT_PROBE_FAILED cfg"
| "kind_tag cfg UDP_BIND = BIND_PROBE_FAILED cfg"
| "kind_tag cfg UDP_CLOSE = CLOSE_PROBE_FAILED cfg"

fun sibling :: "probe_kind \<Rightarrow> probe_kind option" where
  "sibling TCP_CLOSE = Some UDP_CLOSE"
| "sibling UDP_CLOSE = Some TCP_CLOSE"
| "sibling x = None"

text \<open>The block of UDP_CONNECT tests \<open>err\<close> against 0, the others test \<open>err < 0\<close>.\<close>

fun kind_failed :: "probe_kind \<Rightarrow> int \<Rightarrow> bool" where
  "kind_failed UDP_CONNECT err = (err \<noteq> 0)"
| "kind_failed x err = (err < 0)"

fun kind_plant :: "probe_kind \<Rightarrow> kernel \<Rightarrow> hook \<Rightarrow> kstate \<Rightarrow> int \<times> kstate" where
  "kind_plant TCP_CLOSE = plant_jprobe"
| "kind_plant UDP_CLOSE = plant_jprobe"
| "kind_plant x = plant_kretprobe"

definition plant_order :: "probe_kind list" where
  "plant_order = [TCP_CONNECT, TCP_ACCEPT, TCP_CLOSE, UDP_CONNECT, UDP_BIND, UDP_CLOSE]"

definition sibling_loaded :: "probe_kind \<Rightarrow> kstate \<Rightarrow> bool" where
  "sibling_loaded x s =
    (case sibling x of
       None \<Rightarrow> False
     | Some y \<Rightarrow> loaded_probes s AND push_bit (kind_bit y) 1 \<noteq> 0)"

definition kind_block ::
  "config \<Rightarrow> kernel \<Rightarrow> u32 \<Rightarrow> probe_kind \<Rightarrow> int \<times> kstate \<Rightarrow> (int \<times> kstate) + (int \<times> kstate)" where
  "kind_block cfg k m x es =
    (if m AND push_bit (kind_bit x) 1 \<noteq> 0
     then (if \<not> sibling_loaded x (snd es)
           then (case kind_plant x k (kind_hook x) (snd es) of (err, s) \<Rightarrow>
                   if kind_failed x err then Inl (- kind_tag cfg x, s)
                   else Inr (err, s\<lparr>loaded_probes := loaded_probes s OR push_bit (kind_bit x) 1\<rparr>))
           else Inr (fst es, (snd es)\<lparr>loaded_probes := loaded_probes (snd es) OR push_bit (kind_bit x) 1\<rparr>))
     else Inr es)"

fun plant_flow ::
  "config \<Rightarrow> kernel \<Rightarrow> u32 \<Rightarrow> probe_kind list \<Rightarrow> int \<times> kstate \<Rightarrow> (int \<times> kstate) + (int \<times> kstate)" where
  "plant_flow cfg k m [] es = Inr es"
| "plant_flow cfg k m (x # xs) es =
    (case kind_block cfg k m x es of Inl r \<Rightarrow> Inl r | Inr es' \<Rightarrow> plant_flow cfg k m xs es')"

definition merge :: "'a + 'a \<Rightarrow> 'a" where
  "merge r = (case r of Inl a \<Rightarrow> a | Inr a \<Rightarrow> a)"

text \<open>
  What one call of \<open>log_if_not_whitelisted\<close> computes after its \<open>switch\<close> on the family:
  the two address pointers, the truth value of its call of the whitelist gate, and the
  record it hands to \<open>store_netlog_record\<close>.
\<close>

definition event_dst_ip :: "config \<Rightarrow> sock \<Rightarrow> ip_addr option" where
  "event_dst_ip cfg sp =
    (if sk_family sp = AF_INET then Some (IPv4 (DADDR sp))
     else if sk_family sp = AF_INET6
     then (if LINUX_VERSION_CODE cfg > KERNEL_VERSION 3 13 0
           then Some (IPv6 (sk_v6_daddr sp))
           else Some (IPv6 (pinet6_daddr sp)))
     else None)"

definition event_src_ip :: "sock \<Rightarrow> ip_addr option" where
  "event_src_ip sp =
    (if sk_family sp = AF_INET then Some (IPv4 (SADDR sp))
     else if sk_family sp = AF_INET6 then Some (IPv6 (pinet6_saddr sp))
     else None)"

definition gate_says_whitelisted :: "config \<Rightarrow> kernel \<Rightarrow> string \<Rightarrow> sock \<Rightarrow> bool" where
  "gate_says_whitelisted cfg k path sp =
    (is_whitelisted k path (sk_family sp) (event_dst_ip cfg sp) (uint (ntohs (DPORT sp))) \<noteq> 0)"

definition event_record :: "config \<Rightarrow> string \<Rightarrow> sock \<Rightarrow> proto \<Rightarrow> action \<Rightarrow> netlog_record" where
  "event_record cfg path sp p a =
    \<lparr>rec_path = path, rec_action = a, rec_protocol = p, rec_family = sk_family sp,
     rec_src_ip = event_src_ip sp, rec_src_port = uint (ntohs (SPORT sp)),
     rec_dst_ip = event_dst_ip cfg sp, rec_dst_port = uint (ntohs (DPORT sp))\<rparr>"

text \<open>A small concrete kernel, socket and configuration on which the theorems are evaluated.
  The list given to \<open>demo_kernel\<close> holds the errno of each successive plant call.\<close>

definition demo_cfg :: config where
  "demo_cfg = \<lparr>DEFAULT_PROBES = 0x3F, CONNECT_PROBE_FAILED = 1, ACCEPT_PROBE_FAILED = 2,
     CLOSE_PROBE_FAILED = 3, BIND_PROBE_FAILED = 4, MAX_EXEC_PATH = 64,
     LINUX_VERSION_CODE = KERNEL_VERSION 4 4 0\<rparr>"

definition demo_sock :: "u16 \<Rightarrow> u8 \<Rightarrow> sock" where
  "demo_sock fam prot = \<lparr>sk_family = fam, sk_protocol = prot, DPORT = 0x5000, SPORT = 0x3930,
     DADDR = 0x0100007F, SADDR = 0x0200007F, sk_v6_daddr = 1, pinet6_daddr = 1, pinet6_saddr = 2\<rparr>"

definition demo_task :: task_struct where
  "demo_task = \<lparr>mm = Some \<lparr>exe_file = Some \<lparr>f_path = ''/usr/bin/curl''\<rparr>\<rparr>\<rparr>"

definition demo_kernel :: "nat list \<Rightarrow> kernel" where
  "demo_kernel errs =
    \<lparr>current = Some demo_task,
     sockfd_lookup = (\<lambda>fd. if fd = 3 then Some \<lparr>sk = Some (demo_sock AF_INET IPPROTO_TCP)\<rparr>
                          else if fd = 4 then Some \<lparr>sk = Some (demo_sock AF_INET IPPROTO_UDP)\<rparr>
                          else None),
     d_path = (\<lambda>p n. if length p \<le> n then Some p else None),
     is_whitelisted = (\<lambda>p fam ip port. if p = ''/usr/sbin/sshd'' then 1 else 0),
     kstrtoul = (\<lambda>buf base. if buf = ''0'' then (0, 0) else if buf = ''1'' then (0, 1)
                             else if buf = ''24'' \<and> base = 16 then (0, 0x24)
                             else if buf = ''3'' \<and> base = 16 then (0, 3)
                             else if buf = ''41'' \<and> base = 16 then (0, 0x41)
                             else (- 22, 0)),
     plant_errno = (\<lambda>n. if n < length errs then errs ! n else 0)\<rparr>"

text \<open>
  The entry points of the file, as calls that can follow one another, and the state they
  lead to.  A module parameter of one probe is bound to an entry of \<open>probe_list\<close> (or to
  NULL); \<open>bound_to_probe_list\<close> says so of a call.
\<close>

datatype api_call =
    Probes_init
  | All_probes_param_set string
  | One_probe_param_set "probes option" string
  | Unplant_all

fun api_step :: "config \<Rightarrow> kernel \<Rightarrow> api_call \<Rightarrow> kstate \<Rightarrow> kstate" where
  "api_step cfg k Probes_init s = snd (probes_init cfg k s)"
| "api_step cfg k (All_probes_param_set buf) s = snd (all_probes_param_set cfg k buf s)"
| "api_step cfg k (One_probe_param_set arg buf) s = snd (one_probe_param_set cfg k buf arg s)"
| "api_step cfg k Unplant_all s = unplant_all s"

fun run_calls :: "config \<Rightarrow> kernel \<Rightarrow> api_call list \<Rightarrow> kstate \<Rightarrow> kstate" where
  "run_calls cfg k [] s = s"
| "run_calls cfg k (c # cs) s = run_calls cfg k cs (api_step cfg k c s)"

definition bound_to_probe_list :: "api_call \<Rightarrow> bool" where
  "bound_to_probe_list c =
    (case c of
       One_probe_param_set (Some p) buf \<Rightarrow> p \<in> set probe_list
     | _ \<Rightarrow> True)"

text \<open>The physical close hook is planted exactly when one of the two close bits is set.\<close>

definition close_hook_inv :: "kstate \<Rightarrow> bool" where
  "close_hook_inv s \<longleftrightarrow>
    (close_jprobe \<in> planted s \<longleftrightarrow>
     loaded_probes s AND (push_bit PROBE_TCP_CLOSE 1 OR push_bit PROBE_UDP_CLOSE 1) \<noteq> 0)"

text \<open>The two entries of \<open>probe_list\<close> that share the close hook.\<close>

definition tcp_close_probe :: probes where
  "tcp_close_probe = \<lparr>name = ''tcp_close'', mask = push_bit PROBE_TCP_CLOSE 1\<rparr>"

definition udp_close_probe :: probes where
  "udp_close_probe = \<lparr>name = ''udp_close'', mask = push_bit PROBE_UDP_CLOSE 1\<rparr>"

section \<open>Bit tests\<close>

lemma test_bit_flag: "(w AND push_bit n 1 \<noteq> 0) = bit w n" for w :: u32
  by (simp add: bit_iff_and_push_bit_not_eq_0)

lemma test_bit_pow: "(w AND 2 ^ n \<noteq> 0) = bit w n" for w :: u32
  using test_bit_flag [of w n] by simp

lemma or_flag_bit: "bit (w OR push_bit i 1) n \<longleftrightarrow> bit w n \<or> (n = i \<and> i < 32)" for w :: u32
  by (auto simp: bit_simps)

lemma or_pow_bit: "bit (w OR 2 ^ i) n \<longleftrightarrow> bit w n \<or> (n = i \<and> i < 32)" for w :: u32
  using or_flag_bit [of w i n] by simp

lemma xor_subset: "m AND NOT a = 0 \<Longrightarrow> a XOR m = a AND NOT m" for a m :: u32
  by (auto simp: bit_eq_iff bit_simps)

lemmas PROBE_defs =
  PROBE_TCP_CONNECT_def PROBE_TCP_ACCEPT_def PROBE_TCP_CLOSE_def
  PROBE_UDP_CONNECT_def PROBE_UDP_BIND_def PROBE_UDP_CLOSE_def

lemma kind_bit_less: "kind_bit x < 32"
  by (cases x) (simp_all add: PROBE_defs)

lemma kind_bit_inj: "kind_bit x = kind_bit y \<longleftrightarrow> x = y"
  by (cases x; cases y) (simp_all add: PROBE_defs)

section \<open>The blocks of \<open>plant_probes\<close>\<close>

lemma plant_jprobe_eq: "plant_jprobe = plant_kretprobe"
  by (intro ext) (simp add: plant_jprobe_def plant_kretprobe_def)

lemma flow_step:
  "(case (case A of Inl x \<Rightarrow> Inl x | Inr es \<Rightarrow> B es) of Inl r \<Rightarrow> r | Inr r \<Rightarrow> r) =
   (case A of Inl r \<Rightarrow> r | Inr es \<Rightarrow> (case B es of Inl r \<Rightarrow> r | Inr r \<Rightarrow> r))"
  by (cases A) simp_all

lemma plant_probes_flow:
  "plant_probes cfg k m s = (case plant_flow cfg k m plant_order (0, s) of Inl r \<Rightarrow> r | Inr r \<Rightarrow> r)"
  unfolding plant_probes_def plant_order_def plant_flow.simps kind_block_def sibling_loaded_def
    kind_bit.simps kind_hook.simps kind_tag.simps kind_failed.simps kind_plant.simps sibling.simps
    option.case simp_thms if_True if_False flow_step case_prod_unfold fst_conv snd_conv prod.collapse sum.case
  by (rule TrueI)

lemma merge_simps [simp]: "merge (Inl a) = a" "merge (Inr a) = a"
  by (simp_all add: merge_def)

lemma plant_probes_merge: "plant_probes cfg k m s = merge (plant_flow cfg k m plant_order (0, s))"
  by (simp add: plant_probes_flow merge_def)

lemma kind_failed_errno: "kind_failed x (- int n) \<longleftrightarrow> n \<noteq> 0"
  by (cases x) auto

lemma kind_failed_zero: "\<not> kind_failed x 0"
  by (cases x) auto

lemma kind_plant_eq: "kind_plant x = plant_kretprobe"
  by (cases x) (simp_all add: plant_jprobe_eq)

text \<open>What one block does: it is skipped, it shares the planted close hook, it plants, or it fails.\<close>

lemma kind_block_cases [consumes 0, case_names skip share ok fail]:
  obtains
    (skip) "\<not> bit m (kind_bit x)" "kind_block cfg k m x (e, s) = Inr (e, s)"
  | (share) "bit m (kind_bit x)" "sibling_loaded x s"
      "kind_block cfg k m x (e, s) =
         Inr (e, s\<lparr>loaded_probes := loaded_probes s OR push_bit (kind_bit x) 1\<rparr>)"
  | (ok) "bit m (kind_bit x)" "\<not> sibling_loaded x s" "plant_errno k (length (calls s)) = 0"
      "kind_block cfg k m x (e, s) =
         Inr (0, s\<lparr>planted := insert (kind_hook x) (planted s),
                     calls := calls s @ [Plant (kind_hook x) 0],
                     loaded_probes := loaded_probes s OR push_bit (kind_bit x) 1\<rparr>)"
  | (fail) "bit m (kind_bit x)" "\<not> sibling_loaded x s" "plant_errno k (length (calls s)) \<noteq> 0"
      "kind_block cfg k m x (e, s) =
         Inl (- kind_tag cfg x,
              s\<lparr>calls := calls s @ [Plant (kind_hook x) (- int (plant_errno k (length (calls s))))]\<rparr>)"
proof (cases "bit m (kind_bit x)")
  case False
  then show ?thesis
    using skip by (simp add: kind_block_def test_bit_pow)
next
  case req: True
  show ?thesis
  proof (cases "sibling_loaded x s")
    case True
    with req show ?thesis
      using share by (simp add: kind_block_def test_bit_pow)
  next
    case nsib: False
    show ?thesis
    proof (cases "plant_errno k (length (calls s)) = 0")
      case True
      with req nsib show ?thesis
        using ok by (simp add: kind_block_def test_bit_pow kind_plant_eq plant_kretprobe_def
            kind_failed_errno kind_failed_zero Let_def)
    next
      case False
      with req nsib show ?thesis
        using fail by (simp add: kind_block_def test_bit_pow kind_plant_eq plant_kretprobe_def
            kind_failed_errno kind_failed_zero Let_def)
    qed
  qed
qed

section \<open>Properties of the sequence of blocks\<close>

lemma plant_flow_frame:
  "initialized (snd (merge (plant_flow cfg k m xs (e, s)))) = initialized s \<and>
   records (snd (merge (plant_flow cfg k m xs (e, s)))) = records s"
proof (induction xs arbitrary: e s)
  case Nil
  show ?case by simp
next
  case (Cons x xs)
  show ?case
    by (cases rule: kind_block_cases [of m x cfg k e s]) (simp_all add: Cons.IH)
qed

lemma plant_flow_mono:
  "bit (loaded_probes s) n \<Longrightarrow> bit (loaded_probes (snd (merge (plant_flow cfg k m xs (e, s))))) n"
proof (induction xs arbitrary: e s)
  case Nil
  then show ?case by simp
next
  case (Cons x xs)
  show ?case
    by (cases rule: kind_block_cases [of m x cfg k e s])
       (simp_all add: Cons.IH Cons.prems or_pow_bit)
qed

lemma plant_flow_upper:
  "bit (loaded_probes (snd (merge (plant_flow cfg k m xs (e, s))))) n \<Longrightarrow>
   bit (loaded_probes s) n \<or> (bit m n \<and> n \<in> kind_bit ` set xs)"
proof (induction xs arbitrary: e s)
  case Nil
  then show ?case by simp
next
  case (Cons x xs)
  show ?case
  proof (cases rule: kind_block_cases [of m x cfg k e s])
    case skip
    with Cons.prems Cons.IH [of e s] show ?thesis by auto
  next
    case share
    with Cons.prems Cons.IH [of e "s\<lparr>loaded_probes := loaded_probes s OR push_bit (kind_bit x) 1\<rparr>"]
    show ?thesis by (auto simp: or_pow_bit)
  next
    case ok
    with Cons.prems
      Cons.IH [of 0 "s\<lparr>planted := insert (kind_hook x) (planted s),
                     calls := calls s @ [Plant (kind_hook x) 0],
                     loaded_probes := loaded_probes s OR push_bit (kind_bit x) 1\<rparr>"]
    show ?thesis by (auto simp: or_pow_bit)
  next
    case fail
    with Cons.prems show ?thesis by simp
  qed
qed

lemma plant_flow_set:
  "plant_flow cfg k m xs (e, s) = Inr (e', s') \<Longrightarrow> x \<in> set xs \<Longrightarrow> bit m (kind_bit x) \<Longrightarrow>
   bit (loaded_probes s') (kind_bit x)"
proof (induction xs arbitrary: e s)
  case Nil
  then show ?case by simp
next
  case (Cons y ys)
  have step: "bit (loaded_probes s') (kind_bit x)"
    if run: "plant_flow cfg k m ys (e1, s1) = Inr (e', s')"
      and hd: "x = y \<Longrightarrow> bit (loaded_probes s1) (kind_bit x)" for e1 s1
  proof (cases "x = y")
    case True
    from hd [OF True] plant_flow_mono [of s1 "kind_bit x" cfg k m ys e1] run
    show ?thesis by simp
  next
    case False
    with Cons.prems have "x \<in> set ys" by simp
    from Cons.IH [OF run this Cons.prems(3)] show ?thesis .
  qed
  show ?case
  proof (cases rule: kind_block_cases [of m y cfg k e s])
    case skip
    with Cons.prems show ?thesis by (intro step [of e s]) auto
  next
    case share
    with Cons.prems show ?thesis
      by (intro step [of e "s\<lparr>loaded_probes := loaded_probes s OR push_bit (kind_bit y) 1\<rparr>"])
         (auto simp: or_pow_bit kind_bit_less)
  next
    case ok
    with Cons.prems show ?thesis
      by (intro step [of 0 "s\<lparr>planted := insert (kind_hook y) (planted s),
                     calls := calls s @ [Plant (kind_hook y) 0],
                     loaded_probes := loaded_probes s OR push_bit (kind_bit y) 1\<rparr>"])
         (auto simp: or_pow_bit kind_bit_less)
  next
    case fail
    with Cons.prems show ?thesis by simp
  qed
qed

lemma plant_flow_no_failure:
  assumes "\<forall>n. plant_errno k n = 0"
  shows "\<not> isl (plant_flow cfg k m xs (e, s))"
proof (induction xs arbitrary: e s)
  case Nil
  show ?case by simp
next
  case (Cons x xs)
  show ?case
    by (cases rule: kind_block_cases [of m x cfg k e s]) (simp_all add: Cons.IH assms)
qed

lemma plant_flow_ret_zero:
  "\<not> isl (plant_flow cfg k m xs (0, s)) \<Longrightarrow> fst (merge (plant_flow cfg k m xs (0, s))) = 0"
proof (induction xs arbitrary: s)
  case Nil
  show ?case by simp
next
  case (Cons x xs)
  show ?case
    using Cons.prems
    by (cases rule: kind_block_cases [of m x cfg k 0 s]) (simp_all add: Cons.IH)
qed

section \<open>Uninstalling probes\<close>

lemma unplant_probes_loaded: "loaded_probes (unplant_probes m s) = loaded_probes s XOR m"
  by (simp add: unplant_probes_def Let_def unplant_kretprobe_def unplant_jprobe_def)

section \<open>The classifier\<close>

lemma log_if_unfold:
  "log_if_not_whitelisted cfg k cur sp p a s =
    (case path_from_mm k (mm cur) (MAX_EXEC_PATH cfg) of
       None \<Rightarrow> s
     | Some path \<Rightarrow>
         if gate_says_whitelisted cfg k path sp then s
         else s\<lparr>records := records s @ [event_record cfg path sp p a]\<rparr>)"
  unfolding log_if_not_whitelisted_def gate_says_whitelisted_def event_record_def
    event_dst_ip_def event_src_ip_def Let_def WHITELISTING_def simp_thms
  by (rule TrueI)

lemma log_if_frame:
  "initialized (log_if_not_whitelisted cfg k cur sp p a s) = initialized s \<and>
   loaded_probes (log_if_not_whitelisted cfg k cur sp p a s) = loaded_probes s \<and>
   planted (log_if_not_whitelisted cfg k cur sp p a s) = planted s \<and>
   calls (log_if_not_whitelisted cfg k cur sp p a s) = calls s"
  by (simp add: log_if_unfold split: option.splits)

lemma log_if_records:
  "\<exists>new. records (log_if_not_whitelisted cfg k cur sp p a s) = records s @ new \<and> length new \<le> 1 \<and>
     (\<forall>r\<in>set new. rec_protocol r = p \<and> rec_action r = a)"
  by (simp add: log_if_unfold event_record_def split: option.splits)

lemma pre_sys_close_no_socket:
  assumes "\<not> (\<exists>cur so sp. current k = Some cur \<and> sockfd_lookup k fd = Some so \<and> sk so = Some sp)"
  shows "pre_sys_close cfg k fd s = (0, s)"
  using assms by (auto simp: pre_sys_close_def split: option.splits)

lemma pre_sys_close_socket:
  assumes "current k = Some cur" "sockfd_lookup k fd = Some so" "sk so = Some sp"
  shows "pre_sys_close cfg k fd s =
    (if sk_family sp \<noteq> AF_INET \<and> sk_family sp \<noteq> AF_INET6 then (0, s)
     else if bit (loaded_probes s) PROBE_TCP_CLOSE \<and> sk_protocol sp = IPPROTO_TCP \<and> DPORT sp \<noteq> 0
     then (0, log_if_not_whitelisted cfg k cur sp PROTO_TCP ACTION_CLOSE s)
     else if bit (loaded_probes s) PROBE_UDP_CLOSE \<and> sk_protocol sp = IPPROTO_UDP \<and> SPORT sp \<noteq> 0
     then (0, log_if_not_whitelisted cfg k cur sp PROTO_UDP ACTION_CLOSE s)
     else (0, s))"
  using assms by (auto simp: pre_sys_close_def test_bit_pow)

lemma pre_sys_close_cases [consumes 0, case_names none tcp udp]:
  obtains
    (none) "pre_sys_close cfg k fd s = (0, s)"
  | (tcp) cur so sp where
      "current k = Some cur" "sockfd_lookup k fd = Some so" "sk so = Some sp"
      "sk_family sp = AF_INET \<or> sk_family sp = AF_INET6"
      "bit (loaded_probes s) PROBE_TCP_CLOSE" "sk_protocol sp = IPPROTO_TCP" "DPORT sp \<noteq> 0"
      "pre_sys_close cfg k fd s = (0, log_if_not_whitelisted cfg k cur sp PROTO_TCP ACTION_CLOSE s)"
  | (udp) cur so sp where
      "current k = Some cur" "sockfd_lookup k fd = Some so" "sk so = Some sp"
      "sk_family sp = AF_INET \<or> sk_family sp = AF_INET6"
      "bit (loaded_probes s) PROBE_UDP_CLOSE" "sk_protocol sp = IPPROTO_UDP" "SPORT sp \<noteq> 0"
      "pre_sys_close cfg k fd s = (0, log_if_not_whitelisted cfg k cur sp PROTO_UDP ACTION_CLOSE s)"
proof (cases "\<exists>cur so sp. current k = Some cur \<and> sockfd_lookup k fd = Some so \<and> sk so = Some sp")
  case False
  from pre_sys_close_no_socket [OF this] show ?thesis by (rule none)
next
  case True
  then obtain cur so sp where
    sock: "current k = Some cur" "sockfd_lookup k fd = Some so" "sk so = Some sp"
    by blast
  note eq = pre_sys_close_socket [OF sock, of cfg s]
  show ?thesis
  proof (cases "sk_family sp \<noteq> AF_INET \<and> sk_family sp \<noteq> AF_INET6")
    case True
    with eq show ?thesis by (intro none) simp
  next
    case fam: False
    show ?thesis
    proof (cases "bit (loaded_probes s) PROBE_TCP_CLOSE \<and> sk_protocol sp = IPPROTO_TCP \<and> DPORT sp \<noteq> 0")
      case True
      with eq fam sock show ?thesis by (intro tcp [of cur so sp]) auto
    next
      case ntcp: False
      show ?thesis
      proof (cases "bit (loaded_probes s) PROBE_UDP_CLOSE \<and> sk_protocol sp = IPPROTO_UDP \<and> SPORT sp \<noteq> 0")
        case True
        with eq fam ntcp sock show ?thesis
          by (intro udp [of cur so sp]) (auto simp: IPPROTO_TCP_def IPPROTO_UDP_def)
      next
        case False
        with eq fam ntcp show ?thesis by (intro none) auto
      qed
    qed
  qed
qed

section \<open>The registry\<close>

lemma plant_flow_calls:
  "\<exists>evs. calls (snd (merge (plant_flow cfg k m xs (e, s)))) = calls s @ evs"
proof (induction xs arbitrary: e s)
  case Nil
  show ?case by simp
next
  case (Cons x xs)
  show ?case
  proof (cases rule: kind_block_cases [of m x cfg k e s])
    case skip
    with Cons.IH [of e s] show ?thesis by simp
  next
    case share
    with Cons.IH [of e "s\<lparr>loaded_probes := loaded_probes s OR push_bit (kind_bit x) 1\<rparr>"]
    show ?thesis by simp
  next
    case ok
    with Cons.IH [of 0 "s\<lparr>planted := insert (kind_hook x) (planted s),
                     calls := calls s @ [Plant (kind_hook x) 0],
                     loaded_probes := loaded_probes s OR push_bit (kind_bit x) 1\<rparr>"]
    show ?thesis by auto
  next
    case fail
    then show ?thesis by simp
  qed
qed

text \<open>The failing plant of a call, the kind it belongs to, and what the call leaves behind.\<close>

lemma plant_flow_failure:
  assumes "distinct xs"
    and "calls (snd (merge (plant_flow cfg k m xs (e, s)))) = calls s @ evs"
    and "Plant h r \<in> set evs" and "r \<noteq> 0"
  shows "\<exists>pre x post. xs = pre @ x # post \<and> kind_hook x = h \<and> bit m (kind_bit x) \<and>
           plant_flow cfg k m xs (e, s) = Inl (- kind_tag cfg x, snd (merge (plant_flow cfg k m xs (e, s)))) \<and>
           (bit (loaded_probes (snd (merge (plant_flow cfg k m xs (e, s))))) (kind_bit x) \<longleftrightarrow>
              bit (loaded_probes s) (kind_bit x)) \<and>
           (\<forall>y\<in>set pre. bit m (kind_bit y) \<longrightarrow>
              bit (loaded_probes (snd (merge (plant_flow cfg k m xs (e, s))))) (kind_bit y))"
  using assms
proof (induction xs arbitrary: e s evs)
  case Nil
  then show ?case by simp
next
  case (Cons x0 xs)
  let ?R = "plant_flow cfg k m (x0 # xs) (e, s)"
  have step: ?case
    if run: "plant_flow cfg k m (x0 # xs) (e, s) = plant_flow cfg k m xs (e1, s1)"
      and calls1: "calls s1 = calls s @ pre1" and ok1: "\<forall>c\<in>set pre1. c = Plant (kind_hook x0) 0"
      and bits1: "\<And>n. bit (loaded_probes s1) n \<longleftrightarrow> bit (loaded_probes s) n \<or> (n = kind_bit x0 \<and> bit m (kind_bit x0))"
    for e1 s1 pre1
  proof -
    let ?s' = "snd (merge (plant_flow cfg k m xs (e1, s1)))"
    from plant_flow_calls [of cfg k m xs e1 s1] obtain evs1 where
      evs1: "calls ?s' = calls s1 @ evs1" by blast
    with Cons.prems(2) run calls1 have "evs = pre1 @ evs1" by simp
    with Cons.prems(3,4) ok1 have "Plant h r \<in> set evs1" by auto
    from Cons.IH [OF _ evs1 this Cons.prems(4)] Cons.prems(1)
    obtain pre x post where
      split: "xs = pre @ x # post" and hk: "kind_hook x = h" and req: "bit m (kind_bit x)"
      and ret: "plant_flow cfg k m xs (e1, s1) = Inl (- kind_tag cfg x, ?s')"
      and same: "bit (loaded_probes ?s') (kind_bit x) \<longleftrightarrow> bit (loaded_probes s1) (kind_bit x)"
      and earlier: "\<forall>y\<in>set pre. bit m (kind_bit y) \<longrightarrow> bit (loaded_probes ?s') (kind_bit y)"
      by auto
    from split Cons.prems(1) have "x \<noteq> x0" by auto
    then have "kind_bit x \<noteq> kind_bit x0" by (simp add: kind_bit_inj)
    with same bits1 have same': "bit (loaded_probes ?s') (kind_bit x) \<longleftrightarrow> bit (loaded_probes s) (kind_bit x)"
      by simp
    have "bit m (kind_bit x0) \<longrightarrow> bit (loaded_probes ?s') (kind_bit x0)"
      using plant_flow_mono [of s1 "kind_bit x0" cfg k m xs e1] bits1 by simp
    with earlier have earlier': "\<forall>y\<in>set (x0 # pre). bit m (kind_bit y) \<longrightarrow> bit (loaded_probes ?s') (kind_bit y)"
      by simp
    from split have "x0 # xs = (x0 # pre) @ x # post" by simp
    with hk req ret same' earlier' run show ?thesis
      by (intro exI [of _ "x0 # pre"] exI [of _ x] exI [of _ post]) simp
  qed
  show ?case
  proof (cases rule: kind_block_cases [of m x0 cfg k e s])
    case skip
    then show ?thesis
      by (intro step [of e s "[]"]) simp_all
  next
    case share
    then show ?thesis
      by (intro step [of e "s\<lparr>loaded_probes := loaded_probes s OR push_bit (kind_bit x0) 1\<rparr>" "[]"])
         (auto simp: or_pow_bit kind_bit_less)
  next
    case ok
    then show ?thesis
      by (intro step [of 0 "s\<lparr>planted := insert (kind_hook x0) (planted s),
                     calls := calls s @ [Plant (kind_hook x0) 0],
                     loaded_probes := loaded_probes s OR push_bit (kind_bit x0) 1\<rparr>" "[Plant (kind_hook x0) 0]"])
         (auto simp: or_pow_bit kind_bit_less)
  next
    case fail
    with Cons.prems(2,3) show ?thesis
      by (intro exI [of _ "[]"] exI [of _ x0] exI [of _ xs]) auto
  qed
qed

lemma close_test:
  "(w AND (push_bit PROBE_TCP_CLOSE 1 OR push_bit PROBE_UDP_CLOSE 1) \<noteq> 0) =
   (bit w PROBE_TCP_CLOSE \<or> bit w PROBE_UDP_CLOSE)" for w :: u32
proof -
  have "w AND (push_bit PROBE_TCP_CLOSE 1 OR push_bit PROBE_UDP_CLOSE 1) =
        (w AND push_bit PROBE_TCP_CLOSE 1) OR (w AND push_bit PROBE_UDP_CLOSE 1)"
    by (simp add: bit.conj_disj_distrib)
  then show ?thesis
    using test_bit_flag [of w PROBE_TCP_CLOSE] test_bit_flag [of w PROBE_UDP_CLOSE]
    by (simp add: or_eq_0_iff del: push_bit_of_1)
qed

lemma close_hook_inv_bits:
  "close_hook_inv s \<longleftrightarrow>
    (close_jprobe \<in> planted s \<longleftrightarrow>
       bit (loaded_probes s) PROBE_TCP_CLOSE \<or> bit (loaded_probes s) PROBE_UDP_CLOSE)"
  unfolding close_hook_inv_def close_test ..

lemma sibling_loaded_bits:
  "sibling_loaded x s \<longleftrightarrow>
     (x = TCP_CLOSE \<and> bit (loaded_probes s) PROBE_UDP_CLOSE) \<or>
     (x = UDP_CLOSE \<and> bit (loaded_probes s) PROBE_TCP_CLOSE)"
  by (cases x) (simp_all add: sibling_loaded_def test_bit_pow)

lemma kind_bit_close:
  "PROBE_TCP_CLOSE = kind_bit x \<longleftrightarrow> x = TCP_CLOSE"
  "PROBE_UDP_CLOSE = kind_bit x \<longleftrightarrow> x = UDP_CLOSE"
  by (cases x; simp add: PROBE_defs)+

lemma kind_hook_close:
  "kind_hook x = close_jprobe \<longleftrightarrow> x = TCP_CLOSE \<or> x = UDP_CLOSE"
  "close_jprobe = kind_hook x \<longleftrightarrow> x = TCP_CLOSE \<or> x = UDP_CLOSE"
  by (cases x; simp)+

lemma kind_block_inv:
  assumes "close_hook_inv s"
  shows "close_hook_inv (snd (merge (kind_block cfg k m x (e, s))))"
proof (cases rule: kind_block_cases [of m x cfg k e s])
  case skip
  with assms show ?thesis by simp
next
  case share
  with assms show ?thesis
    by (auto simp: close_hook_inv_bits sibling_loaded_bits or_pow_bit kind_bit_close)
next
  case ok
  with assms show ?thesis
    by (auto simp: close_hook_inv_bits or_pow_bit kind_bit_close kind_bit_less kind_hook_close)
next
  case fail
  with assms show ?thesis by (simp add: close_hook_inv_bits)
qed

lemma plant_flow_inv:
  "close_hook_inv s \<Longrightarrow> close_hook_inv (snd (merge (plant_flow cfg k m xs (e, s))))"
proof (induction xs arbitrary: e s)
  case Nil
  then show ?case by simp
next
  case (Cons x xs)
  from kind_block_inv [OF Cons.prems, of cfg k m x e]
  show ?case
    by (cases "kind_block cfg k m x (e, s)") (auto simp: Cons.IH)
qed

lemma plant_probes_inv: "close_hook_inv s \<Longrightarrow> close_hook_inv (snd (plant_probes cfg k m s))"
  by (simp add: plant_probes_merge plant_flow_inv)

lemma plant_probes_frame:
  "initialized (snd (plant_probes cfg k m s)) = initialized s"
  "records (snd (plant_probes cfg k m s)) = records s"
  by (simp_all add: plant_probes_merge plant_flow_frame)

lemma unplant_probes_planted_close:
  "close_jprobe \<in> planted (unplant_probes m s) \<longleftrightarrow>
     close_jprobe \<in> planted s \<and>
     \<not> ((bit m PROBE_TCP_CLOSE \<or> bit m PROBE_UDP_CLOSE) \<and>
        \<not> (bit (loaded_probes s XOR m) PROBE_TCP_CLOSE \<or> bit (loaded_probes s XOR m) PROBE_UDP_CLOSE))"
  unfolding unplant_probes_def Let_def close_test
  by (simp add: unplant_kretprobe_def unplant_jprobe_def)

lemma mask_subset:
  fixes m a :: u32
  assumes "m AND NOT a = 0" and "bit m n"
  shows "bit a n"
proof (rule ccontr)
  assume "\<not> bit a n"
  moreover from assms(2) have "n < 32"
    using bit_imp_le_length [of m n] by simp
  ultimately have "bit (m AND NOT a) n"
    using assms(2) by (simp add: bit_simps)
  with assms(1) show False by simp
qed

lemma unplant_probes_inv:
  assumes "close_hook_inv s" and "m AND NOT (loaded_probes s) = 0"
  shows "close_hook_inv (unplant_probes m s)"
proof -
  have sub: "bit m n \<Longrightarrow> bit (loaded_probes s) n" for n
    using mask_subset [OF assms(2)] .
  with assms(1) show ?thesis
    by (auto simp: close_hook_inv_bits unplant_probes_planted_close unplant_probes_loaded bit_simps)
qed

lemma to_remove_subset:
  "(ucast ((NOT w) AND ucast l) :: u32) AND NOT l = 0" for w :: ulong and l :: u32
  by (auto simp: bit_eq_iff bit_simps)

lemma probe_list_mask: "p \<in> set probe_list \<Longrightarrow> \<exists>x. mask p = push_bit (kind_bit x) 1"
proof -
  assume "p \<in> set probe_list"
  then consider "mask p = push_bit (kind_bit TCP_CONNECT) 1" | "mask p = push_bit (kind_bit TCP_ACCEPT) 1"
    | "mask p = push_bit (kind_bit TCP_CLOSE) 1" | "mask p = push_bit (kind_bit UDP_CONNECT) 1"
    | "mask p = push_bit (kind_bit UDP_BIND) 1" | "mask p = push_bit (kind_bit UDP_CLOSE) 1"
    by (auto simp: probe_list_def)
  then show ?thesis by cases blast+
qed

lemma single_bit_subset:
  fixes l :: u32
  assumes "push_bit n 1 AND l \<noteq> 0"
  shows "push_bit n 1 AND NOT l = 0"
proof -
  from assms have "bit l n"
    using test_bit_flag [of l n] by (simp add: and.commute)
  then show ?thesis
    by (intro bit_eqI) (auto simp: bit_simps)
qed

lemma probes_init_inv: "close_hook_inv s \<Longrightarrow> close_hook_inv (snd (probes_init cfg k s))"
  using plant_probes_inv [of s cfg k "DEFAULT_PROBES cfg"]
  by (auto simp: probes_init_def close_hook_inv_def split: prod.splits)

lemma all_probes_param_set_inv:
  assumes "close_hook_inv s"
  shows "close_hook_inv (snd (all_probes_param_set cfg k buf s))"
proof -
  have diff: "close_hook_inv (snd (plant_probes cfg k (ucast (w AND ucast (NOT (loaded_probes s1))))
      (unplant_probes (ucast ((NOT w) AND ucast (loaded_probes s1))) s1)))"
    if "close_hook_inv s1" for s1 and w :: ulong
    using that by (intro plant_probes_inv unplant_probes_inv to_remove_subset)
  have init: "close_hook_inv (s1\<lparr>initialized := 1\<rparr>)" if "close_hook_inv s1" for s1
    using that by (simp add: close_hook_inv_def)
  show ?thesis
    using assms diff [OF assms] diff [OF init [OF plant_probes_inv [OF assms, of cfg k "DEFAULT_PROBES cfg"]]]
      plant_probes_inv [OF assms, of cfg k "DEFAULT_PROBES cfg"]
    by (auto simp: all_probes_param_set_def Let_def split: prod.splits)
qed

lemma one_probe_param_set_inv:
  assumes "close_hook_inv s" and "arg = None \<or> (\<exists>p\<in>set probe_list. arg = Some p)"
  shows "close_hook_inv (snd (one_probe_param_set cfg k buf arg s))"
proof (cases arg)
  case None
  with assms(1) show ?thesis by (simp add: one_probe_param_set_def)
next
  case (Some p)
  with assms(2) have "p \<in> set probe_list" by simp
  then obtain x where m: "mask p = push_bit (kind_bit x) 1"
    using probe_list_mask by blast
  have toggle: "close_hook_inv (snd (if val \<noteq> 0
          then (if mask p AND NOT (loaded_probes s1) \<noteq> 0 then plant_probes cfg k (mask p) s1 else (r, s1))
          else (if mask p AND loaded_probes s1 \<noteq> 0 then (r, unplant_probes (mask p) s1) else (r, s1))))"
    if "close_hook_inv s1" for s1 r and val :: ulong
    using that plant_probes_inv [OF that, of cfg k "mask p"]
      unplant_probes_inv [OF that, of "mask p"] single_bit_subset [of "kind_bit x" "loaded_probes s1"]
    by (auto simp: m simp del: push_bit_of_1)
  have init: "close_hook_inv (s1\<lparr>initialized := 1\<rparr>)" if "close_hook_inv s1" for s1
    using that by (simp add: close_hook_inv_def)
  obtain ret val where ks: "kstrtoul k buf 0 = (ret, val)" by fastforce
  obtain r0 sd where pd: "plant_probes cfg k (DEFAULT_PROBES cfg) s = (r0, sd)" by fastforce
  from plant_probes_inv [OF assms(1), of cfg k "DEFAULT_PROBES cfg"] pd
  have sd_inv: "close_hook_inv sd" by simp
  show ?thesis
  proof (cases "ret < 0")
    case True
    with Some ks assms(1) show ?thesis by (simp add: one_probe_param_set_def)
  next
    case parsed: False
    show ?thesis
    proof (cases "initialized s \<noteq> 0")
      case False
      with Some ks parsed toggle [OF assms(1), of val 0] show ?thesis
        by (simp add: one_probe_param_set_def)
    next
      case first: True
      show ?thesis
      proof (cases "r0 < 0")
        case True
        with Some ks parsed first pd sd_inv show ?thesis
          by (simp add: one_probe_param_set_def)
      next
        case False
        with Some ks parsed first pd toggle [OF init [OF sd_inv], of val r0] show ?thesis
          by (simp add: one_probe_param_set_def)
      qed
    qed
  qed
qed

lemma unplant_all_inv: "close_hook_inv s \<Longrightarrow> close_hook_inv (unplant_all s)"
  by (simp add: unplant_all_def unplant_probes_inv)

lemma api_step_inv:
  assumes "close_hook_inv s" and "bound_to_probe_list c"
  shows "close_hook_inv (api_step cfg k c s)"
proof (cases c)
  case Probes_init
  with assms show ?thesis by (simp add: probes_init_inv)
next
  case (All_probes_param_set buf)
  with assms show ?thesis by (simp add: all_probes_param_set_inv)
next
  case (One_probe_param_set arg buf)
  with assms(2) have "arg = None \<or> (\<exists>p\<in>set probe_list. arg = Some p)"
    by (cases arg) (simp_all add: bound_to_probe_list_def)
  with assms(1) One_probe_param_set show ?thesis by (simp add: one_probe_param_set_inv)
next
  case Unplant_all
  with assms show ?thesis by (simp add: unplant_all_inv)
qed

lemma run_calls_inv:
  "close_hook_inv s \<Longrightarrow> \<forall>c\<in>set cs. bound_to_probe_list c \<Longrightarrow> close_hook_inv (run_calls cfg k cs s)"
  by (induction cs arbitrary: s) (simp_all add: api_step_inv)

lemma init_state_inv: "close_hook_inv init_state"
  by (simp add: close_hook_inv_bits init_state_def)

lemma sibling_loaded_iff:
  "sibling_loaded x s \<longleftrightarrow> (\<exists>y. sibling x = Some y \<and> bit (loaded_probes s) (kind_bit y))"
  by (cases x) (simp_all add: sibling_loaded_def test_bit_pow)

lemma plant_flow_close_plant:
  assumes "calls (snd (merge (plant_flow cfg k m xs (e, s)))) = calls s @ evs"
    and "Plant close_jprobe r \<in> set evs"
  shows "\<exists>pre x post. xs = pre @ x # post \<and> kind_hook x = close_jprobe \<and> bit m (kind_bit x) \<and>
           \<not> sibling_loaded x s \<and> (\<forall>y\<in>set pre. bit m (kind_bit y) \<longrightarrow> sibling x \<noteq> Some y)"
  using assms
proof (induction xs arbitrary: e s evs)
  case Nil
  then show ?case by simp
next
  case (Cons x0 xs)
  have here: ?case if "kind_hook x0 = close_jprobe" "bit m (kind_bit x0)" "\<not> sibling_loaded x0 s"
    using that by (intro exI [of _ "[]"] exI [of _ x0] exI [of _ xs]) simp
  have later: ?case
    if run: "plant_flow cfg k m (x0 # xs) (e, s) = plant_flow cfg k m xs (e1, s1)"
      and calls1: "calls s1 = calls s @ pre1"
      and tail: "Plant close_jprobe r \<notin> set pre1"
      and bits1: "\<And>n. bit (loaded_probes s1) n \<longleftrightarrow> bit (loaded_probes s) n \<or> (n = kind_bit x0 \<and> bit m (kind_bit x0))"
    for e1 s1 pre1
  proof -
    let ?s' = "snd (merge (plant_flow cfg k m xs (e1, s1)))"
    from plant_flow_calls [of cfg k m xs e1 s1] obtain evs1 where
      evs1: "calls ?s' = calls s1 @ evs1" by blast
    with Cons.prems(1) run calls1 have "evs = pre1 @ evs1" by simp
    with Cons.prems(2) tail have "Plant close_jprobe r \<in> set evs1" by auto
    from Cons.IH [OF evs1 this]
    obtain pre x post where
      split: "xs = pre @ x # post" and hk: "kind_hook x = close_jprobe" and req: "bit m (kind_bit x)"
      and nsib: "\<not> sibling_loaded x s1"
      and earlier: "\<forall>y\<in>set pre. bit m (kind_bit y) \<longrightarrow> sibling x \<noteq> Some y"
      by auto
    from nsib bits1 have nsib': "\<not> sibling_loaded x s"
      by (auto simp: sibling_loaded_iff)
    from nsib bits1 have "bit m (kind_bit x0) \<longrightarrow> sibling x \<noteq> Some x0"
      by (auto simp: sibling_loaded_iff)
    with earlier have earlier': "\<forall>y\<in>set (x0 # pre). bit m (kind_bit y) \<longrightarrow> sibling x \<noteq> Some y"
      by simp
    from split have "x0 # xs = (x0 # pre) @ x # post" by simp
    with hk req nsib' earlier' show ?thesis
      by (intro exI [of _ "x0 # pre"] exI [of _ x] exI [of _ post]) simp
  qed
  show ?case
  proof (cases rule: kind_block_cases [of m x0 cfg k e s])
    case skip
    then show ?thesis
      by (intro later [of e s "[]"]) simp_all
  next
    case share
    then show ?thesis
      by (intro later [of e "s\<lparr>loaded_probes := loaded_probes s OR push_bit (kind_bit x0) 1\<rparr>" "[]"])
         (auto simp: or_pow_bit kind_bit_less)
  next
    case ok
    show ?thesis
    proof (cases "kind_hook x0 = close_jprobe")
      case True
      with ok show ?thesis by (intro here) simp_all
    next
      case False
      with ok show ?thesis
        by (intro later [of 0 "s\<lparr>planted := insert (kind_hook x0) (planted s),
                     calls := calls s @ [Plant (kind_hook x0) 0],
                     loaded_probes := loaded_probes s OR push_bit (kind_bit x0) 1\<rparr>" "[Plant (kind_hook x0) 0]"])
           (auto simp: or_pow_bit kind_bit_less)
    qed
  next
    case fail
    with Cons.prems show ?thesis
      by (intro here) auto
  qed
qed

lemma unplant_probes_calls:
  "calls (unplant_probes m s) = calls s @
     (if bit m PROBE_TCP_CONNECT then [Unplant stream_connect_kretprobe] else []) @
     (if bit m PROBE_TCP_ACCEPT then [Unplant accept_kretprobe] else []) @
     (if (bit m PROBE_TCP_CLOSE \<or> bit m PROBE_UDP_CLOSE) \<and>
         \<not> (bit (loaded_probes s XOR m) PROBE_TCP_CLOSE \<or> bit (loaded_probes s XOR m) PROBE_UDP_CLOSE)
      then [Unplant close_jprobe] else []) @
     (if bit m PROBE_UDP_CONNECT then [Unplant dgram_connect_kretprobe] else []) @
     (if bit m PROBE_UDP_BIND then [Unplant bind_kretprobe] else [])"
  unfolding unplant_probes_def Let_def close_test test_bit_flag
  by (simp add: unplant_kretprobe_def unplant_jprobe_def)

lemma plant_order_split_close:
  assumes "plant_order = pre @ x # post" and "kind_hook x = close_jprobe"
  shows "x = TCP_CLOSE \<or> (x = UDP_CLOSE \<and> TCP_CLOSE \<in> set pre)"
  using assms by (auto simp: plant_order_def Cons_eq_append_conv kind_hook_close)

lemma plant_probes_close_plant:
  assumes "calls (snd (plant_probes cfg k m s)) = calls s @ evs"
    and "Plant close_jprobe r \<in> set evs"
  shows "bit m PROBE_TCP_CLOSE \<and> \<not> bit (loaded_probes s) PROBE_UDP_CLOSE \<or>
         bit m PROBE_UDP_CLOSE \<and> \<not> bit m PROBE_TCP_CLOSE \<and> \<not> bit (loaded_probes s) PROBE_TCP_CLOSE"
proof -
  from assms obtain pre x post where
    split: "plant_order = pre @ x # post" and hk: "kind_hook x = close_jprobe"
    and req: "bit m (kind_bit x)" and nsib: "\<not> sibling_loaded x s"
    and earlier: "\<forall>y\<in>set pre. bit m (kind_bit y) \<longrightarrow> sibling x \<noteq> Some y"
    using plant_flow_close_plant [of cfg k m plant_order 0 s evs r]
    by (auto simp: plant_probes_merge)
  from plant_order_split_close [OF split hk] show ?thesis
  proof
    assume "x = TCP_CLOSE"
    with req nsib show ?thesis by (simp add: sibling_loaded_bits)
  next
    assume "x = UDP_CLOSE \<and> TCP_CLOSE \<in> set pre"
    with req nsib earlier show ?thesis by (auto simp: sibling_loaded_bits)
  qed
qed

lemma disjoint_bits:
  fixes m a :: u32
  assumes "m AND a = 0" and "bit m n"
  shows "\<not> bit a n"
proof
  assume "bit a n"
  with assms(2) have "bit (m AND a) n" by (simp add: bit_simps)
  with assms(1) show False by simp
qed

lemma plant_probes_no_replant:
  assumes "close_hook_inv s" and "m AND loaded_probes s = 0"
    and "calls (snd (plant_probes cfg k m s)) = calls s @ evs" and "Plant close_jprobe r \<in> set evs"
  shows "close_jprobe \<notin> planted s"
  using plant_probes_close_plant [OF assms(3,4)] assms(1) disjoint_bits [OF assms(2)]
  by (auto simp: close_hook_inv_bits)

lemma kind_bits_of_order: "n \<in> kind_bit ` set plant_order \<longleftrightarrow> n \<le> PROBE_UDP_CLOSE"
  by (auto simp: plant_order_def PROBE_defs)

lemma plant_probes_no_failure:
  assumes "\<forall>n. plant_errno k n = 0"
  shows "fst (plant_probes cfg k m s) = 0"
    and "bit (loaded_probes (snd (plant_probes cfg k m s))) n \<longleftrightarrow>
           bit (loaded_probes s) n \<or> (bit m n \<and> n \<le> PROBE_UDP_CLOSE)"
proof -
  let ?R = "plant_flow cfg k m plant_order (0, s)"
  from plant_flow_no_failure [OF assms, of cfg m plant_order 0 s]
  have nofail: "\<not> isl ?R" .
  then obtain e' s' where R: "?R = Inr (e', s')"
    by (cases ?R) auto
  from plant_flow_ret_zero [OF nofail] show "fst (plant_probes cfg k m s) = 0"
    by (simp add: plant_probes_merge)
  show "bit (loaded_probes (snd (plant_probes cfg k m s))) n \<longleftrightarrow>
           bit (loaded_probes s) n \<or> (bit m n \<and> n \<le> PROBE_UDP_CLOSE)"
  proof
    assume "bit (loaded_probes (snd (plant_probes cfg k m s))) n"
    with plant_flow_upper [of cfg k m plant_order 0 s n]
    show "bit (loaded_probes s) n \<or> (bit m n \<and> n \<le> PROBE_UDP_CLOSE)"
      by (simp add: plant_probes_merge kind_bits_of_order)
  next
    assume "bit (loaded_probes s) n \<or> (bit m n \<and> n \<le> PROBE_UDP_CLOSE)"
    then show "bit (loaded_probes (snd (plant_probes cfg k m s))) n"
    proof
      assume "bit (loaded_probes s) n"
      from plant_flow_mono [OF this, of cfg k m plant_order 0] show ?thesis
        by (simp add: plant_probes_merge)
    next
      assume "bit m n \<and> n \<le> PROBE_UDP_CLOSE"
      then obtain x where "x \<in> set plant_order" "n = kind_bit x" "bit m (kind_bit x)"
        using kind_bits_of_order [of n] by auto
      with plant_flow_set [OF R] R show ?thesis
        by (simp add: plant_probes_merge)
    qed
  qed
qed

lemma reconcile_once:
  assumes nofail: "\<forall>n. plant_errno k n = 0"
    and parse: "kstrtoul k buf 16 = (r, W)" "0 \<le> r"
    and known: "\<forall>n. bit W n \<longrightarrow> n \<le> PROBE_UDP_CLOSE"
  shows "fst (all_probes_param_set cfg k buf s) = 0"
    and "loaded_probes (snd (all_probes_param_set cfg k buf s)) = ucast W"
proof -
  define s1 where "s1 = (if initialized s \<noteq> 0
      then (snd (plant_probes cfg k (DEFAULT_PROBES cfg) s))\<lparr>initialized := 1\<rparr> else s)"
  define add :: u32 where "add = ucast (W AND ucast (NOT (loaded_probes s1)))"
  define rem :: u32 where "rem = ucast ((NOT W) AND ucast (loaded_probes s1))"
  have eq: "all_probes_param_set cfg k buf s = plant_probes cfg k add (unplant_probes rem s1)"
    using parse plant_probes_no_failure(1) [OF nofail, of cfg "DEFAULT_PROBES cfg" s]
    by (auto simp: all_probes_param_set_def s1_def add_def rem_def Let_def split: prod.splits)
  show "fst (all_probes_param_set cfg k buf s) = 0"
    by (simp add: eq plant_probes_no_failure(1) [OF nofail])
  show "loaded_probes (snd (all_probes_param_set cfg k buf s)) = ucast W"
  proof (rule bit_eqI)
    fix n
    have small: "bit W n \<Longrightarrow> n < 32"
      using known by (auto simp: PROBE_defs)
    show "bit (loaded_probes (snd (all_probes_param_set cfg k buf s))) n \<longleftrightarrow> bit (ucast W :: u32) n"
      using known small
      by (auto simp: eq plant_probes_no_failure(2) [OF nofail] unplant_probes_loaded add_def rem_def
          bit_simps dest: bit_imp_le_length)
  qed
qed

lemma unplant_probes_frame:
  "initialized (unplant_probes m s) = initialized s"
  "records (unplant_probes m s) = records s"
  by (simp_all add: unplant_probes_def Let_def unplant_kretprobe_def unplant_jprobe_def)

lemma api_step_initialized:
  assumes "initialized s = 0"
  shows "initialized (api_step cfg k c s) = 0"
proof (cases c)
  case Probes_init
  with assms show ?thesis by (simp add: probes_init_def)
next
  case (All_probes_param_set buf)
  with assms show ?thesis
    by (simp add: all_probes_param_set_def Let_def plant_probes_frame unplant_probes_frame split: prod.splits)
next
  case (One_probe_param_set arg buf)
  with assms show ?thesis
    by (simp add: one_probe_param_set_def plant_probes_frame unplant_probes_frame
        split: prod.splits option.splits)
next
  case Unplant_all
  with assms show ?thesis by (simp add: unplant_all_def unplant_probes_frame)
qed

lemma run_calls_initialized:
  "initialized s = 0 \<Longrightarrow> initialized (run_calls cfg k cs s) = 0"
  by (induction cs arbitrary: s) (simp_all add: api_step_initialized)

lemma one_probe_param_set_noop:
  assumes "initialized s = 0" and "p \<in> set probe_list"
    and "kstrtoul k buf 0 = (r, val)" and "0 \<le> r"
    and "val \<noteq> 0 \<and> mask p AND loaded_probes s \<noteq> 0 \<or> val = 0 \<and> mask p AND loaded_probes s = 0"
  shows "one_probe_param_set cfg k buf (Some p) s = (0, s)"
proof -
  from assms(2) obtain x where m: "mask p = push_bit (kind_bit x) 1"
    using probe_list_mask by blast
  from assms(5) single_bit_subset [of "kind_bit x" "loaded_probes s"]
  have "val \<noteq> 0 \<and> mask p AND NOT (loaded_probes s) = 0 \<or> val = 0 \<and> mask p AND loaded_probes s = 0"
    unfolding m by blast
  with assms(1,3,4) show ?thesis
    by (auto simp: one_probe_param_set_def)
qed

lemma probes_to_add_eq: "(ucast (w AND ucast (NOT l)) :: u32) = ucast w AND NOT l" for w :: ulong and l :: u32
  by (rule bit_eqI) (auto simp: bit_simps)

lemma probes_to_remove_eq: "(ucast ((NOT w) AND ucast l) :: u32) = NOT (ucast w) AND l" for w :: ulong and l :: u32
  by (rule bit_eqI) (auto simp: bit_simps)

lemma all_probes_param_set_u32:
  "all_probes_param_set cfg k buf s0 =
    (case kstrtoul k buf 16 of (ret, wanted_probes) \<Rightarrow>
      if ret < 0 then (ret, s0)
      else
        (case (if initialized s0 \<noteq> 0
               then (case plant_probes cfg k (DEFAULT_PROBES cfg) s0 of (ret, s) \<Rightarrow>
                       if ret < 0 then Inl (ret, s) else Inr (s\<lparr>initialized := 1\<rparr>))
               else Inr s0)
         of Inl r \<Rightarrow> r
          | Inr s1 \<Rightarrow>
              plant_probes cfg k (ucast wanted_probes AND NOT (loaded_probes s1))
                (unplant_probes (NOT (ucast wanted_probes) AND loaded_probes s1) s1)))"
  by (simp only: all_probes_param_set_def probes_to_add_eq probes_to_remove_eq Let_def)

lemmas eval_defs =
  plant_probes_def unplant_probes_def plant_kretprobe_def plant_jprobe_def unplant_kretprobe_def
  unplant_jprobe_def one_probe_param_set_def all_probes_param_set_u32 demo_kernel_def demo_cfg_def
  init_state_def PROBE_defs Let_def tcp_close_probe_def udp_close_probe_def

lemma and_not_disjoint:
  fixes m a :: u32
  assumes "m AND a = 0"
  shows "a AND NOT m = a"
proof (rule bit_eqI)
  fix n
  from disjoint_bits [OF assms, of n] show "bit (a AND NOT m) n \<longleftrightarrow> bit a n"
    by (auto simp: bit_simps dest: bit_imp_le_length)
qed

lemma one_probe_param_set_disable:
  assumes "initialized s = 0" and "p \<in> set probe_list"
    and "kstrtoul k buf 0 = (r, 0)" and "0 \<le> r"
  shows "fst (one_probe_param_set cfg k buf (Some p) s) = 0"
    and "loaded_probes (snd (one_probe_param_set cfg k buf (Some p) s)) = loaded_probes s AND NOT (mask p)"
proof -
  from assms(2) obtain x where m: "mask p = push_bit (kind_bit x) 1"
    using probe_list_mask by blast
  show "fst (one_probe_param_set cfg k buf (Some p) s) = 0"
    using assms(1,3,4) by (simp add: one_probe_param_set_def)
  show "loaded_probes (snd (one_probe_param_set cfg k buf (Some p) s)) = loaded_probes s AND NOT (mask p)"
  proof (cases "mask p AND loaded_probes s \<noteq> 0")
    case True
    then have "mask p AND NOT (loaded_probes s) = 0"
      unfolding m by (rule single_bit_subset)
    from xor_subset [OF this] True assms(1,3,4) show ?thesis
      by (simp add: one_probe_param_set_def unplant_probes_loaded)
  next
    case False
    then have "mask p AND loaded_probes s = 0" by simp
    from and_not_disjoint [OF this] False assms(1,3,4) show ?thesis
      by (simp add: one_probe_param_set_def)
  qed
qed

section \<open>The claims\<close>

subsection \<open>C1\<close>

text \<open>
  Claim C1.  The state the module starts in satisfies the invariant "the close hook is
  planted if and only if TCP_CLOSE or UDP_CLOSE is set in \<open>loaded_probes\<close>", and every
  call of an entry point of the file, with any arguments and any answers of the
  instrumentation subsystem, keeps it.  Within a call of \<open>plant_probes\<close>, a plant of the
  close hook is issued only for a requested close kind whose sibling bit is clear (at the
  start of the call and not set earlier in the call); when the requested bits are all new,
  as the callers arrange, it is issued only while the hook is not planted.  Within a call
  of \<open>unplant_probes\<close>, the close hook is unplanted if and only if a close bit is removed
  and neither close bit remains set.
\<close>

theorem close_hook_shared:
  "close_hook_inv init_state \<and>
   (close_hook_inv s0 \<and> (\<forall>c\<in>set cs. bound_to_probe_list c) \<longrightarrow>
      close_hook_inv (run_calls cfg k cs s0)) \<and>
   (\<forall>evs r. calls (snd (plant_probes cfg k m s)) = calls s @ evs \<and> Plant close_jprobe r \<in> set evs \<longrightarrow>
      (bit m PROBE_TCP_CLOSE \<and> \<not> bit (loaded_probes s) PROBE_UDP_CLOSE \<or>
       bit m PROBE_UDP_CLOSE \<and> \<not> bit m PROBE_TCP_CLOSE \<and> \<not> bit (loaded_probes s) PROBE_TCP_CLOSE)) \<and>
   (close_hook_inv s \<and> m AND loaded_probes s = 0 \<longrightarrow>
      (\<forall>evs r. calls (snd (plant_probes cfg k m s)) = calls s @ evs \<and> Plant close_jprobe r \<in> set evs \<longrightarrow>
         close_jprobe \<notin> planted s)) \<and>
   (\<forall>evs. calls (unplant_probes m s) = calls s @ evs \<longrightarrow>
      (Unplant close_jprobe \<in> set evs \<longleftrightarrow>
         (bit m PROBE_TCP_CLOSE \<or> bit m PROBE_UDP_CLOSE) \<and>
         \<not> bit (loaded_probes (unplant_probes m s)) PROBE_TCP_CLOSE \<and>
         \<not> bit (loaded_probes (unplant_probes m s)) PROBE_UDP_CLOSE))"
proof (intro conjI allI impI)
  show "close_hook_inv init_state" by (rule init_state_inv)
next
  assume "close_hook_inv s0 \<and> (\<forall>c\<in>set cs. bound_to_probe_list c)"
  then show "close_hook_inv (run_calls cfg k cs s0)"
    using run_calls_inv by blast
next
  fix evs r
  assume "calls (snd (plant_probes cfg k m s)) = calls s @ evs \<and> Plant close_jprobe r \<in> set evs"
  then show "bit m PROBE_TCP_CLOSE \<and> \<not> bit (loaded_probes s) PROBE_UDP_CLOSE \<or>
       bit m PROBE_UDP_CLOSE \<and> \<not> bit m PROBE_TCP_CLOSE \<and> \<not> bit (loaded_probes s) PROBE_TCP_CLOSE"
    using plant_probes_close_plant by blast
next
  fix evs r
  assume "close_hook_inv s \<and> m AND loaded_probes s = 0"
    and "calls (snd (plant_probes cfg k m s)) = calls s @ evs \<and> Plant close_jprobe r \<in> set evs"
  then show "close_jprobe \<notin> planted s"
    using plant_probes_no_replant by blast
next
  fix evs
  assume "calls (unplant_probes m s) = calls s @ evs"
  then show "Unplant close_jprobe \<in> set evs \<longleftrightarrow>
         (bit m PROBE_TCP_CLOSE \<or> bit m PROBE_UDP_CLOSE) \<and>
         \<not> bit (loaded_probes (unplant_probes m s)) PROBE_TCP_CLOSE \<and>
         \<not> bit (loaded_probes (unplant_probes m s)) PROBE_UDP_CLOSE"
    by (auto simp: unplant_probes_calls unplant_probes_loaded)
qed

text \<open>
  Scenarios 2 and 3 of the spec: installing TCP_CLOSE then UDP_CLOSE plants the close hook
  once; uninstalling TCP_CLOSE then UDP_CLOSE unplants it once, at the second call.
\<close>

theorem close_hook_shared_witness:
  "calls (run_calls demo_cfg (demo_kernel [])
      [One_probe_param_set (Some tcp_close_probe) ''1'', One_probe_param_set (Some udp_close_probe) ''1'',
       One_probe_param_set (Some tcp_close_probe) ''0'', One_probe_param_set (Some udp_close_probe) ''0'']
      init_state) = [Plant close_jprobe 0, Unplant close_jprobe] \<and>
   close_hook_inv (run_calls demo_cfg (demo_kernel [])
      [One_probe_param_set (Some tcp_close_probe) ''1'', One_probe_param_set (Some udp_close_probe) ''1'']
      init_state) \<and>
   loaded_probes (run_calls demo_cfg (demo_kernel [])
      [One_probe_param_set (Some tcp_close_probe) ''1'', One_probe_param_set (Some udp_close_probe) ''1'']
      init_state) = 0x24"
proof -
  have bound: "\<forall>c\<in>set [One_probe_param_set (Some tcp_close_probe) ''1'',
      One_probe_param_set (Some udp_close_probe) ''1'']. bound_to_probe_list c"
    by (simp add: bound_to_probe_list_def probe_list_def tcp_close_probe_def udp_close_probe_def)
  from close_hook_shared [of init_state "[One_probe_param_set (Some tcp_close_probe) ''1'',
      One_probe_param_set (Some udp_close_probe) ''1'']" demo_cfg "demo_kernel []"] bound
  have "close_hook_inv (run_calls demo_cfg (demo_kernel [])
      [One_probe_param_set (Some tcp_close_probe) ''1'', One_probe_param_set (Some udp_close_probe) ''1'']
      init_state)" by blast
  then show ?thesis
    by (simp add: eval_defs)
qed

subsection \<open>C2\<close>

text \<open>
  Claim C2.  In the state the module starts in (\<open>initialized\<close> and \<open>loaded_probes\<close> both
  zero, as C gives file-scope variables), \<open>probes_init\<close> tests \<open>initialized != 0\<close>, finds
  it false and returns 0 without planting anything: the default mask is not installed and
  \<open>initialized\<close> stays 0, whatever \<open>DEFAULT_PROBES\<close> is.
\<close>

theorem probes_init_skips_defaults_initially:
  "probes_init cfg k init_state = (0, init_state)"
  by (simp add: probes_init_def init_state_def)

subsection \<open>C3\<close>

text \<open>
  Claim C3.  \<open>unplant_probes\<close> is static and is called from three places: with
  \<open>loaded_probes\<close> itself (in \<open>unplant_all\<close>), with \<open>(~wanted_probes) & loaded_probes\<close> (in
  \<open>all_probes_param_set\<close>) and with the mask of a \<open>probe_list\<close> entry behind the guard
  \<open>probe->mask & loaded_probes\<close> (in \<open>one_probe_param_set\<close>).  Each of these requested
  masks lies within the current mask, and for every such request the function leaves the
  mask equal to the old one with the requested bits cleared and sets no bit that was clear;
  \<open>unplant_all\<close> clears the whole mask.  Disabling a probe through \<open>one_probe_param_set\<close>,
  whether its bit is set or clear, returns 0 and leaves the mask with that bit cleared, in
  every state the entry points reach.  The function is void: there is no error to return.
\<close>

theorem unplant_probes_clears_loaded_bits:
  "(m AND NOT (loaded_probes s) = 0 \<longrightarrow>
      loaded_probes (unplant_probes m s) = loaded_probes s AND NOT m \<and>
      (\<forall>n. bit (loaded_probes (unplant_probes m s)) n \<longrightarrow> bit (loaded_probes s) n)) \<and>
   loaded_probes s AND NOT (loaded_probes s) = 0 \<and>
   (ucast ((NOT (w :: ulong)) AND ucast (loaded_probes s)) :: u32) AND NOT (loaded_probes s) = 0 \<and>
   (p \<in> set probe_list \<and> mask p AND loaded_probes s \<noteq> 0 \<longrightarrow> mask p AND NOT (loaded_probes s) = 0) \<and>
   loaded_probes (unplant_all s) = loaded_probes s AND NOT (loaded_probes s) \<and>
   (p \<in> set probe_list \<and> kstrtoul k buf 0 = (r, 0) \<and> 0 \<le> r \<longrightarrow>
      fst (one_probe_param_set cfg k buf (Some p) (run_calls cfg k cs init_state)) = 0 \<and>
      loaded_probes (snd (one_probe_param_set cfg k buf (Some p) (run_calls cfg k cs init_state))) =
        loaded_probes (run_calls cfg k cs init_state) AND NOT (mask p))"
proof (intro conjI impI)
  assume sub: "m AND NOT (loaded_probes s) = 0"
  then show "loaded_probes (unplant_probes m s) = loaded_probes s AND NOT m"
    by (simp add: unplant_probes_loaded xor_subset)
  then show "\<forall>n. bit (loaded_probes (unplant_probes m s)) n \<longrightarrow> bit (loaded_probes s) n"
    by (simp add: bit_simps)
next
  show "loaded_probes s AND NOT (loaded_probes s) = 0" by simp
next
  show "(ucast ((NOT (w :: ulong)) AND ucast (loaded_probes s)) :: u32) AND NOT (loaded_probes s) = 0"
    by (rule to_remove_subset)
next
  assume "p \<in> set probe_list \<and> mask p AND loaded_probes s \<noteq> 0"
  then show "mask p AND NOT (loaded_probes s) = 0"
    using probe_list_mask [of p] single_bit_subset [of _ "loaded_probes s"] by auto
next
  show "loaded_probes (unplant_all s) = loaded_probes s AND NOT (loaded_probes s)"
    by (simp add: unplant_all_def unplant_probes_loaded)
next
  assume h: "p \<in> set probe_list \<and> kstrtoul k buf 0 = (r, 0) \<and> 0 \<le> r"
  have init: "initialized (run_calls cfg k cs init_state) = 0"
    by (simp add: run_calls_initialized init_state_def)
  from h one_probe_param_set_disable(1) [OF init, of p k buf r cfg]
  show "fst (one_probe_param_set cfg k buf (Some p) (run_calls cfg k cs init_state)) = 0" by blast
  from h one_probe_param_set_disable(2) [OF init, of p k buf r cfg]
  show "loaded_probes (snd (one_probe_param_set cfg k buf (Some p) (run_calls cfg k cs init_state))) =
        loaded_probes (run_calls cfg k cs init_state) AND NOT (mask p)" by blast
qed

text \<open>
  Removing TCP_CLOSE from the mask 5; and, after TCP_CLOSE has been enabled, disabling
  UDP_CLOSE (a clear bit, nothing changes) and disabling TCP_CLOSE.
\<close>

theorem unplant_probes_clears_loaded_bits_witness:
  "(4 :: u32) AND NOT (loaded_probes (init_state\<lparr>loaded_probes := 5\<rparr>)) = 0 \<and>
   loaded_probes (unplant_probes 4 (init_state\<lparr>loaded_probes := 5\<rparr>)) = 1 \<and>
   calls (unplant_probes 4 (init_state\<lparr>loaded_probes := 5\<rparr>)) = [Unplant close_jprobe] \<and>
   one_probe_param_set demo_cfg (demo_kernel []) ''0'' (Some udp_close_probe)
     (run_calls demo_cfg (demo_kernel []) [One_probe_param_set (Some tcp_close_probe) ''1''] init_state) =
     (0, init_state\<lparr>loaded_probes := 4, planted := {close_jprobe}, calls := [Plant close_jprobe 0]\<rparr>) \<and>
   one_probe_param_set demo_cfg (demo_kernel []) ''0'' (Some tcp_close_probe)
     (run_calls demo_cfg (demo_kernel []) [One_probe_param_set (Some tcp_close_probe) ''1''] init_state) =
     (0, init_state\<lparr>loaded_probes := 0, planted := {},
          calls := [Plant close_jprobe 0, Unplant close_jprobe]\<rparr>)"
proof -
  let ?s = "run_calls demo_cfg (demo_kernel []) [One_probe_param_set (Some tcp_close_probe) ''1''] init_state"
  have s: "?s = init_state\<lparr>loaded_probes := 4, planted := {close_jprobe}, calls := [Plant close_jprobe 0]\<rparr>"
    by (simp add: eval_defs)
  have udp: "udp_close_probe \<in> set probe_list"
    by (simp add: probe_list_def udp_close_probe_def)
  have p0: "kstrtoul (demo_kernel []) ''0'' 0 = (0, 0)"
    by (simp add: demo_kernel_def)
  have off: "one_probe_param_set demo_cfg (demo_kernel []) ''0'' (Some udp_close_probe)
      (init_state\<lparr>loaded_probes := 4, planted := {close_jprobe}, calls := [Plant close_jprobe 0]\<rparr>) =
     (0, init_state\<lparr>loaded_probes := 4, planted := {close_jprobe}, calls := [Plant close_jprobe 0]\<rparr>)"
    by (simp add: eval_defs)
  have on: "one_probe_param_set demo_cfg (demo_kernel []) ''0'' (Some tcp_close_probe)
      (init_state\<lparr>loaded_probes := 4, planted := {close_jprobe}, calls := [Plant close_jprobe 0]\<rparr>) =
     (0, init_state\<lparr>loaded_probes := 0, planted := {},
          calls := [Plant close_jprobe 0, Unplant close_jprobe]\<rparr>)"
    by (simp add: eval_defs)
  from unplant_probes_clears_loaded_bits [of 4 "init_state\<lparr>loaded_probes := 5\<rparr>" _ udp_close_probe
      "demo_kernel []" "''0''" 0 demo_cfg "[One_probe_param_set (Some tcp_close_probe) ''1'']"] udp p0
  show ?thesis
    unfolding s off on
    by (simp add: init_state_def unplant_probes_def Let_def unplant_jprobe_def unplant_kretprobe_def
      PROBE_defs)
qed

subsection \<open>C4\<close>

text \<open>
  Claim C4.  If a plant call issued by \<open>plant_probes\<close> fails (returns a negative value),
  then it was issued for a requested probe kind \<open>x\<close>, the function returns the negated
  error tag of the family of \<open>x\<close>, the bit of \<open>x\<close> is as it was before the call (clear if
  it was clear), every requested kind that precedes \<open>x\<close> in the order of the source has
  its bit set, and no bit that was set before the call is cleared.
\<close>

theorem plant_probes_partial_success:
  assumes "plant_probes cfg k m s = (ret, s')"
    and "calls s' = calls s @ evs" and "Plant h r \<in> set evs" and "r < 0"
  shows "\<exists>pre x post. plant_order = pre @ x # post \<and> kind_hook x = h \<and> bit m (kind_bit x) \<and>
           ret = - kind_tag cfg x \<and>
           (bit (loaded_probes s') (kind_bit x) \<longleftrightarrow> bit (loaded_probes s) (kind_bit x)) \<and>
           (\<forall>y\<in>set pre. bit m (kind_bit y) \<longrightarrow> bit (loaded_probes s') (kind_bit y)) \<and>
           (\<forall>n. bit (loaded_probes s) n \<longrightarrow> bit (loaded_probes s') n)"
proof -
  let ?R = "plant_flow cfg k m plant_order (0, s)"
  from assms(1) have res: "merge ?R = (ret, s')"
    by (simp add: plant_probes_merge)
  then have s': "snd (merge ?R) = s'" by simp
  have "distinct plant_order" by (simp add: plant_order_def)
  moreover from assms(2) s' have "calls (snd (merge ?R)) = calls s @ evs" by simp
  moreover from assms(4) have "r \<noteq> 0" by simp
  ultimately obtain pre x post where
    split: "plant_order = pre @ x # post" and hk: "kind_hook x = h" and req: "bit m (kind_bit x)"
    and ret: "?R = Inl (- kind_tag cfg x, snd (merge ?R))"
    and same: "bit (loaded_probes (snd (merge ?R))) (kind_bit x) \<longleftrightarrow> bit (loaded_probes s) (kind_bit x)"
    and earlier: "\<forall>y\<in>set pre. bit m (kind_bit y) \<longrightarrow> bit (loaded_probes (snd (merge ?R))) (kind_bit y)"
    using plant_flow_failure [of plant_order cfg k m 0 s evs h r] assms(3) by blast
  from ret res have "ret = - kind_tag cfg x"
    by (metis fst_conv merge_simps(1))
  moreover have "\<forall>n. bit (loaded_probes s) n \<longrightarrow> bit (loaded_probes s') n"
    using plant_flow_mono [of s _ cfg k m plant_order 0] s' by auto
  ultimately show ?thesis
    using split hk req same earlier s' by auto
qed

text \<open>
  Scenario 5 of the spec: TCP_CONNECT and TCP_ACCEPT are requested and the accept hook is
  refused with errno 13.
\<close>

theorem plant_probes_partial_success_witness:
  "plant_probes demo_cfg (demo_kernel [0, 13]) 3 init_state =
     (- ACCEPT_PROBE_FAILED demo_cfg,
      init_state\<lparr>loaded_probes := 1, planted := {stream_connect_kretprobe},
        calls := [Plant stream_connect_kretprobe 0, Plant accept_kretprobe (- 13)]\<rparr>) \<and>
   (\<exists>pre x post. plant_order = pre @ x # post \<and> kind_hook x = accept_kretprobe \<and>
      - ACCEPT_PROBE_FAILED demo_cfg = - kind_tag demo_cfg x \<and>
      \<not> bit (1 :: u32) (kind_bit x) \<and> (\<forall>y\<in>set pre. bit (3 :: u32) (kind_bit y) \<longrightarrow> bit (1 :: u32) (kind_bit y)))"
proof -
  have run: "plant_probes demo_cfg (demo_kernel [0, 13]) 3 init_state =
     (- ACCEPT_PROBE_FAILED demo_cfg,
      init_state\<lparr>loaded_probes := 1, planted := {stream_connect_kretprobe},
        calls := [Plant stream_connect_kretprobe 0, Plant accept_kretprobe (- 13)]\<rparr>)"
    by (simp add: eval_defs)
  have tr: "calls (init_state\<lparr>loaded_probes := 1, planted := {stream_connect_kretprobe},
        calls := [Plant stream_connect_kretprobe 0, Plant accept_kretprobe (- 13)]\<rparr>) =
      calls init_state @ [Plant stream_connect_kretprobe 0, Plant accept_kretprobe (- 13)]"
    by (simp add: init_state_def)
  from plant_probes_partial_success [OF run tr, of accept_kretprobe "- 13"]
  show ?thesis using run by (auto simp: init_state_def)
qed

subsection \<open>C5\<close>

text \<open>
  Claim C5, as amended.  When no plant call fails and \<open>B\<close> names probe kinds only (no
  bit above UDP_CLOSE), \<open>all_probes_param_set\<close> with the parsed value \<open>A\<close> followed by
  \<open>all_probes_param_set\<close> with the parsed value \<open>B\<close> leaves \<open>loaded_probes\<close> equal to
  \<open>B\<close> and returns 0, from any state.
\<close>

theorem reconcile_converges:
  assumes "\<forall>n. plant_errno k n = 0"
    and "kstrtoul k bufA 16 = (rA, A)" and "kstrtoul k bufB 16 = (rB, B)" and "0 \<le> rB"
    and "\<forall>n. bit B n \<longrightarrow> n \<le> PROBE_UDP_CLOSE"
  shows "loaded_probes (snd (all_probes_param_set cfg k bufB (snd (all_probes_param_set cfg k bufA s)))) = ucast B \<and>
         fst (all_probes_param_set cfg k bufB (snd (all_probes_param_set cfg k bufA s))) = 0"
  using reconcile_once [OF assms(1,3,4,5)] by simp

text \<open>From the initial state: the mask 3, then the mask 0x24 (the two close kinds).\<close>

theorem reconcile_converges_witness:
  "loaded_probes (snd (all_probes_param_set demo_cfg (demo_kernel []) ''24''
      (snd (all_probes_param_set demo_cfg (demo_kernel []) ''3'' init_state)))) = 0x24 \<and>
   loaded_probes (snd (all_probes_param_set demo_cfg (demo_kernel []) ''3'' init_state)) = 3 \<and>
   calls (snd (all_probes_param_set demo_cfg (demo_kernel []) ''24''
      (snd (all_probes_param_set demo_cfg (demo_kernel []) ''3'' init_state)))) =
     [Plant stream_connect_kretprobe 0, Plant accept_kretprobe 0,
      Unplant stream_connect_kretprobe, Unplant accept_kretprobe, Plant close_jprobe 0]"
proof -
  have nofail: "\<forall>n. plant_errno (demo_kernel []) n = 0"
    by (simp add: demo_kernel_def)
  have pA: "kstrtoul (demo_kernel []) ''3'' 16 = (0, 3)" and pB: "kstrtoul (demo_kernel []) ''24'' 16 = (0, 0x24)"
    by (simp_all add: demo_kernel_def)
  have "(0x24 :: ulong) = 2 ^ 2 OR 2 ^ 5" by simp
  then have "bit (0x24 :: ulong) n \<longleftrightarrow> n = 2 \<or> n = 5" for n
    by (simp only: bit_or_iff bit_exp_iff) auto
  then have known: "\<forall>n. bit (0x24 :: ulong) n \<longrightarrow> n \<le> PROBE_UDP_CLOSE"
    by (auto simp: PROBE_defs)
  have first: "snd (all_probes_param_set demo_cfg (demo_kernel []) ''3'' init_state) =
      init_state\<lparr>loaded_probes := 3, planted := {stream_connect_kretprobe, accept_kretprobe},
        calls := [Plant stream_connect_kretprobe 0, Plant accept_kretprobe 0]\<rparr>"
    by (simp add: eval_defs insert_commute)
  have second: "all_probes_param_set demo_cfg (demo_kernel []) ''24''
      (init_state\<lparr>loaded_probes := 3, planted := {stream_connect_kretprobe, accept_kretprobe},
        calls := [Plant stream_connect_kretprobe 0, Plant accept_kretprobe 0]\<rparr>) =
      (0, init_state\<lparr>loaded_probes := 0x24, planted := {close_jprobe},
        calls := [Plant stream_connect_kretprobe 0, Plant accept_kretprobe 0,
          Unplant stream_connect_kretprobe, Unplant accept_kretprobe, Plant close_jprobe 0]\<rparr>)"
    by (simp add: eval_defs)
  from reconcile_converges [OF nofail pA pB _ known, of demo_cfg init_state]
  show ?thesis
    unfolding first second by (simp add: init_state_def)
qed

text \<open>
  Claim C5 as stated fails for a wanted value with a bit that names no probe kind:
  \<open>plant_probes\<close> has no block for it, so the bit is never loaded.  After the mask 3, the
  value 0x41 leaves the mask 1, with every plant call answered by success.
\<close>

theorem reconcile_ignores_unknown_bits:
  "kstrtoul (demo_kernel []) ''41'' 16 = (0, 0x41) \<and>
   all_probes_param_set demo_cfg (demo_kernel []) ''41''
     (snd (all_probes_param_set demo_cfg (demo_kernel []) ''3'' init_state)) =
   (0, init_state\<lparr>loaded_probes := 1, planted := {stream_connect_kretprobe},
        calls := [Plant stream_connect_kretprobe 0, Plant accept_kretprobe 0,
                  Unplant accept_kretprobe]\<rparr>) \<and>
   loaded_probes (snd (all_probes_param_set demo_cfg (demo_kernel []) ''41''
     (snd (all_probes_param_set demo_cfg (demo_kernel []) ''3'' init_state)))) \<noteq> ucast (0x41 :: ulong)"
proof -
  have first: "snd (all_probes_param_set demo_cfg (demo_kernel []) ''3'' init_state) =
      init_state\<lparr>loaded_probes := 3, planted := {stream_connect_kretprobe, accept_kretprobe},
        calls := [Plant stream_connect_kretprobe 0, Plant accept_kretprobe 0]\<rparr>"
    by (simp add: eval_defs insert_commute)
  have second: "all_probes_param_set demo_cfg (demo_kernel []) ''41''
      (init_state\<lparr>loaded_probes := 3, planted := {stream_connect_kretprobe, accept_kretprobe},
        calls := [Plant stream_connect_kretprobe 0, Plant accept_kretprobe 0]\<rparr>) =
      (0, init_state\<lparr>loaded_probes := 1, planted := {stream_connect_kretprobe},
        calls := [Plant stream_connect_kretprobe 0, Plant accept_kretprobe 0,
                  Unplant accept_kretprobe]\<rparr>)"
    by (simp add: eval_defs insert_Diff_if)
  show ?thesis
    unfolding first second by (simp add: demo_kernel_def init_state_def)
qed

subsection \<open>C6\<close>

text \<open>
  Claim C6.  One call of \<open>pre_sys_close\<close> hands at most one record to the sink, a close
  record; and when the socket's protocol is TCP no UDP record is produced, whatever the
  mask and the ports are: the UDP test is the \<open>else\<close> branch of the TCP test and itself
  requires the protocol to be UDP.
\<close>

theorem pre_sys_close_one_event:
  "\<exists>new. records (snd (pre_sys_close cfg k fd s)) = records s @ new \<and> length new \<le> 1 \<and>
     (\<forall>r\<in>set new. rec_action r = ACTION_CLOSE) \<and>
     (\<forall>so sp. sockfd_lookup k fd = Some so \<and> sk so = Some sp \<and> sk_protocol sp = IPPROTO_TCP \<longrightarrow>
        (\<forall>r\<in>set new. rec_protocol r = PROTO_TCP \<and> rec_protocol r \<noteq> PROTO_UDP))"
proof (cases rule: pre_sys_close_cases [of cfg k fd s])
  case none
  then show ?thesis by simp
next
  case (tcp cur so sp)
  from log_if_records [of cfg k cur sp PROTO_TCP ACTION_CLOSE s] tcp
  show ?thesis by auto
next
  case (udp cur so sp)
  from log_if_records [of cfg k cur sp PROTO_UDP ACTION_CLOSE s] udp
  show ?thesis by (auto simp: IPPROTO_TCP_def IPPROTO_UDP_def)
qed

text \<open>A TCP socket closed while both close bits are set: one TCP close record.\<close>

theorem pre_sys_close_one_event_witness:
  "records (snd (pre_sys_close demo_cfg (demo_kernel []) 3 (init_state\<lparr>loaded_probes := 0x24\<rparr>))) =
   [\<lparr>rec_path = ''/usr/bin/curl'', rec_action = ACTION_CLOSE, rec_protocol = PROTO_TCP,
     rec_family = 2, rec_src_ip = Some (IPv4 0x0200007F), rec_src_port = 12345,
     rec_dst_ip = Some (IPv4 0x0100007F), rec_dst_port = 80\<rparr>]"
  using pre_sys_close_one_event [of demo_cfg "demo_kernel []" 3 "init_state\<lparr>loaded_probes := 0x24\<rparr>"]
  by (simp add: pre_sys_close_def log_if_unfold gate_says_whitelisted_def event_record_def event_dst_ip_def
      event_src_ip_def path_from_mm_def demo_cfg_def demo_kernel_def demo_task_def demo_sock_def
      init_state_def AF_INET_def AF_INET6_def IPPROTO_TCP_def IPPROTO_UDP_def ntohs_def PROBE_defs)

subsection \<open>C7\<close>

text \<open>
  Claim C7.  A record stored by \<open>pre_sys_close\<close> is a TCP close record only if the
  TCP_CLOSE bit is set, the protocol is TCP and the destination port is not zero, and a
  UDP close record only if the UDP_CLOSE bit is set, the protocol is UDP and the source
  port is not zero; when neither condition holds for the socket behind the descriptor,
  the call changes nothing.
\<close>

theorem pre_sys_close_liveness_filter:
  assumes "records (snd (pre_sys_close cfg k fd s)) = records s @ new"
  shows "(\<forall>r\<in>set new. \<exists>so sp. sockfd_lookup k fd = Some so \<and> sk so = Some sp \<and>
            rec_action r = ACTION_CLOSE \<and>
            (rec_protocol r = PROTO_TCP \<and> bit (loaded_probes s) PROBE_TCP_CLOSE \<and>
               sk_protocol sp = IPPROTO_TCP \<and> DPORT sp \<noteq> 0 \<or>
             rec_protocol r = PROTO_UDP \<and> bit (loaded_probes s) PROBE_UDP_CLOSE \<and>
               sk_protocol sp = IPPROTO_UDP \<and> SPORT sp \<noteq> 0)) \<and>
         ((\<forall>so sp. sockfd_lookup k fd = Some so \<and> sk so = Some sp \<longrightarrow>
              \<not> (bit (loaded_probes s) PROBE_TCP_CLOSE \<and> sk_protocol sp = IPPROTO_TCP \<and> DPORT sp \<noteq> 0) \<and>
              \<not> (bit (loaded_probes s) PROBE_UDP_CLOSE \<and> sk_protocol sp = IPPROTO_UDP \<and> SPORT sp \<noteq> 0)) \<longrightarrow>
            pre_sys_close cfg k fd s = (0, s))"
proof (cases rule: pre_sys_close_cases [of cfg k fd s])
  case none
  with assms show ?thesis by simp
next
  case (tcp cur so sp)
  from log_if_records [of cfg k cur sp PROTO_TCP ACTION_CLOSE s] tcp assms
  show ?thesis by auto
next
  case (udp cur so sp)
  from log_if_records [of cfg k cur sp PROTO_UDP ACTION_CLOSE s] udp assms
  show ?thesis by auto
qed

text \<open>A bound UDP socket closed with UDP_CLOSE set gives a UDP close record; with only
  TCP_CLOSE set the same call stores nothing.\<close>

theorem pre_sys_close_liveness_filter_witness:
  "records (snd (pre_sys_close demo_cfg (demo_kernel []) 4 (init_state\<lparr>loaded_probes := 0x24\<rparr>))) =
     records (init_state\<lparr>loaded_probes := 0x24\<rparr>) @
     [\<lparr>rec_path = ''/usr/bin/curl'', rec_action = ACTION_CLOSE, rec_protocol = PROTO_UDP,
       rec_family = 2, rec_src_ip = Some (IPv4 0x0200007F), rec_src_port = 12345,
       rec_dst_ip = Some (IPv4 0x0100007F), rec_dst_port = 80\<rparr>] \<and>
   bit (loaded_probes (init_state\<lparr>loaded_probes := 0x24\<rparr>)) PROBE_UDP_CLOSE \<and>
   pre_sys_close demo_cfg (demo_kernel []) 4 (init_state\<lparr>loaded_probes := 4\<rparr>) =
     (0, init_state\<lparr>loaded_probes := 4\<rparr>)"
proof -
  have run: "records (snd (pre_sys_close demo_cfg (demo_kernel []) 4 (init_state\<lparr>loaded_probes := 0x24\<rparr>))) =
     records (init_state\<lparr>loaded_probes := 0x24\<rparr>) @
     [\<lparr>rec_path = ''/usr/bin/curl'', rec_action = ACTION_CLOSE, rec_protocol = PROTO_UDP,
       rec_family = 2, rec_src_ip = Some (IPv4 0x0200007F), rec_src_port = 12345,
       rec_dst_ip = Some (IPv4 0x0100007F), rec_dst_port = 80\<rparr>]"
    by (simp add: pre_sys_close_def log_if_unfold gate_says_whitelisted_def event_record_def event_dst_ip_def
      event_src_ip_def path_from_mm_def demo_cfg_def demo_kernel_def demo_task_def demo_sock_def
      init_state_def AF_INET_def AF_INET6_def IPPROTO_TCP_def IPPROTO_UDP_def ntohs_def PROBE_defs)
  have idle: "records (snd (pre_sys_close demo_cfg (demo_kernel []) 4 (init_state\<lparr>loaded_probes := 4\<rparr>))) =
     records (init_state\<lparr>loaded_probes := 4\<rparr>) @ []"
    by (simp add: pre_sys_close_def demo_kernel_def demo_sock_def
      init_state_def AF_INET_def AF_INET6_def IPPROTO_TCP_def IPPROTO_UDP_def PROBE_defs)
  have skip: "pre_sys_close demo_cfg (demo_kernel []) 4 (init_state\<lparr>loaded_probes := 4\<rparr>) =
     (0, init_state\<lparr>loaded_probes := 4\<rparr>)"
    using pre_sys_close_liveness_filter [OF idle]
    by (simp add: demo_kernel_def demo_sock_def init_state_def IPPROTO_TCP_def IPPROTO_UDP_def PROBE_defs)
  have "bit (loaded_probes (init_state\<lparr>loaded_probes := 0x24\<rparr>)) PROBE_UDP_CLOSE"
    using pre_sys_close_liveness_filter [OF run] by (auto simp: init_state_def)
  with run skip show ?thesis by simp
qed

subsection \<open>C8\<close>

text \<open>
  Claim C8.  One call of \<open>log_if_not_whitelisted\<close> appends at most one record, and it
  appends exactly one if and only if the executable path resolves and the whitelist gate
  answers 0; with an unresolvable path, or a gate answering non-zero, the state is
  unchanged.
\<close>

theorem log_if_not_whitelisted_emission:
  "\<exists>new. records (log_if_not_whitelisted cfg k cur sp p a s) = records s @ new \<and>
     length new \<le> 1 \<and>
     (length new = 1 \<longleftrightarrow>
        (\<exists>path. path_from_mm k (mm cur) (MAX_EXEC_PATH cfg) = Some path \<and>
                \<not> gate_says_whitelisted cfg k path sp)) \<and>
     (path_from_mm k (mm cur) (MAX_EXEC_PATH cfg) = None \<longrightarrow>
        log_if_not_whitelisted cfg k cur sp p a s = s) \<and>
     (\<forall>path. path_from_mm k (mm cur) (MAX_EXEC_PATH cfg) = Some path \<and>
             gate_says_whitelisted cfg k path sp \<longrightarrow>
        log_if_not_whitelisted cfg k cur sp p a s = s)"
  by (simp add: log_if_unfold split: option.splits)

text \<open>A TCP connect of \<open>/usr/bin/curl\<close>, which the demo gate does not whitelist.\<close>

theorem log_if_not_whitelisted_emission_witness:
  "records (log_if_not_whitelisted demo_cfg (demo_kernel []) demo_task (demo_sock AF_INET IPPROTO_TCP)
      PROTO_TCP ACTION_CONNECT init_state) =
   [\<lparr>rec_path = ''/usr/bin/curl'', rec_action = ACTION_CONNECT, rec_protocol = PROTO_TCP,
     rec_family = 2, rec_src_ip = Some (IPv4 0x0200007F), rec_src_port = 12345,
     rec_dst_ip = Some (IPv4 0x0100007F), rec_dst_port = 80\<rparr>] \<and>
   path_from_mm (demo_kernel []) (mm demo_task) (MAX_EXEC_PATH demo_cfg) = Some ''/usr/bin/curl'' \<and>
   \<not> gate_says_whitelisted demo_cfg (demo_kernel []) ''/usr/bin/curl'' (demo_sock AF_INET IPPROTO_TCP)"
  using log_if_not_whitelisted_emission [of demo_cfg "demo_kernel []" demo_task
      "demo_sock AF_INET IPPROTO_TCP" PROTO_TCP ACTION_CONNECT init_state]
  by (simp add: log_if_unfold gate_says_whitelisted_def event_record_def event_dst_ip_def event_src_ip_def
      path_from_mm_def demo_cfg_def demo_kernel_def demo_task_def demo_sock_def init_state_def
      AF_INET_def AF_INET6_def ntohs_def)

subsection \<open>C9\<close>

text \<open>
  Claim C9.  For a socket whose family is neither \<open>AF_INET\<close> nor \<open>AF_INET6\<close> both
  address pointers are NULL; the whitelist gate is still called, with a NULL address, and
  unless it answers non-zero the record is stored with NULL source and destination
  addresses.
\<close>

theorem log_if_not_whitelisted_unknown_family:
  assumes "sk_family sp \<noteq> AF_INET" and "sk_family sp \<noteq> AF_INET6"
    and "path_from_mm k (mm cur) (MAX_EXEC_PATH cfg) = Some path"
  shows "log_if_not_whitelisted cfg k cur sp p a s =
    (if is_whitelisted k path (sk_family sp) None (uint (ntohs (DPORT sp))) \<noteq> 0 then s
     else s\<lparr>records := records s @
            [\<lparr>rec_path = path, rec_action = a, rec_protocol = p, rec_family = sk_family sp,
              rec_src_ip = None, rec_src_port = uint (ntohs (SPORT sp)),
              rec_dst_ip = None, rec_dst_port = uint (ntohs (DPORT sp))\<rparr>]\<rparr>)"
  using assms
  by (simp add: log_if_unfold gate_says_whitelisted_def event_record_def event_dst_ip_def event_src_ip_def)

text \<open>The same call on a socket of family 1 (\<open>AF_UNIX\<close>).\<close>

theorem log_if_not_whitelisted_unknown_family_witness:
  "records (log_if_not_whitelisted demo_cfg (demo_kernel []) demo_task (demo_sock 1 IPPROTO_TCP)
      PROTO_TCP ACTION_CONNECT init_state) =
   [\<lparr>rec_path = ''/usr/bin/curl'', rec_action = ACTION_CONNECT, rec_protocol = PROTO_TCP,
     rec_family = 1, rec_src_ip = None, rec_src_port = 12345,
     rec_dst_ip = None, rec_dst_port = 80\<rparr>]"
proof -
  have fam: "sk_family (demo_sock 1 IPPROTO_TCP) \<noteq> AF_INET" "sk_family (demo_sock 1 IPPROTO_TCP) \<noteq> AF_INET6"
    by (simp_all add: demo_sock_def AF_INET_def AF_INET6_def)
  have path: "path_from_mm (demo_kernel []) (mm demo_task) (MAX_EXEC_PATH demo_cfg) = Some ''/usr/bin/curl''"
    by (simp add: path_from_mm_def demo_kernel_def demo_task_def demo_cfg_def)
  show ?thesis
    using log_if_not_whitelisted_unknown_family [OF fam path, of PROTO_TCP ACTION_CONNECT init_state]
    by (simp add: demo_kernel_def demo_sock_def init_state_def ntohs_def)
qed

subsection \<open>C10\<close>

text \<open>
  Claim C10.  In every state the entry points can reach from the initial state, for every
  entry of \<open>probe_list\<close>: enabling it when its bit is set, or disabling it when its bit is
  clear, returns 0 and leaves the whole state as it was, so no primitive is called and
  the mask is unchanged.
\<close>

theorem one_probe_param_set_idempotent:
  assumes "s = run_calls cfg k cs init_state"
    and "p \<in> set probe_list"
    and "kstrtoul k buf 0 = (r, val)" and "0 \<le> r"
    and "val \<noteq> 0 \<and> mask p AND loaded_probes s \<noteq> 0 \<or> val = 0 \<and> mask p AND loaded_probes s = 0"
  shows "one_probe_param_set cfg k buf (Some p) s = (0, s)"
proof -
  from assms(1) have "initialized s = 0"
    by (simp add: run_calls_initialized init_state_def)
  from one_probe_param_set_noop [OF this assms(2-5)] show ?thesis .
qed

text \<open>After TCP_CLOSE has been enabled: enabling it again, and disabling UDP_CLOSE.\<close>

theorem one_probe_param_set_idempotent_witness:
  "one_probe_param_set demo_cfg (demo_kernel []) ''1'' (Some tcp_close_probe)
     (run_calls demo_cfg (demo_kernel []) [One_probe_param_set (Some tcp_close_probe) ''1''] init_state) =
   (0, run_calls demo_cfg (demo_kernel []) [One_probe_param_set (Some tcp_close_probe) ''1''] init_state) \<and>
   calls (run_calls demo_cfg (demo_kernel []) [One_probe_param_set (Some tcp_close_probe) ''1''] init_state) =
     [Plant close_jprobe 0] \<and>
   one_probe_param_set demo_cfg (demo_kernel []) ''0'' (Some udp_close_probe)
     (run_calls demo_cfg (demo_kernel []) [One_probe_param_set (Some tcp_close_probe) ''1''] init_state) =
   (0, run_calls demo_cfg (demo_kernel []) [One_probe_param_set (Some tcp_close_probe) ''1''] init_state)"
proof -
  let ?s = "run_calls demo_cfg (demo_kernel []) [One_probe_param_set (Some tcp_close_probe) ''1''] init_state"
  have s: "?s = init_state\<lparr>loaded_probes := 4, planted := {close_jprobe}, calls := [Plant close_jprobe 0]\<rparr>"
    by (simp add: eval_defs)
  have tcp: "tcp_close_probe \<in> set probe_list" and udp: "udp_close_probe \<in> set probe_list"
    by (simp_all add: probe_list_def tcp_close_probe_def udp_close_probe_def)
  have p1: "kstrtoul (demo_kernel []) ''1'' 0 = (0, 1)" and p0: "kstrtoul (demo_kernel []) ''0'' 0 = (0, 0)"
    by (simp_all add: demo_kernel_def)
  have on: "(1 :: ulong) \<noteq> 0 \<and> mask tcp_close_probe AND loaded_probes ?s \<noteq> 0 \<or>
            (1 :: ulong) = 0 \<and> mask tcp_close_probe AND loaded_probes ?s = 0"
    unfolding s by (simp add: tcp_close_probe_def PROBE_defs init_state_def)
  have off: "(0 :: ulong) \<noteq> 0 \<and> mask udp_close_probe AND loaded_probes ?s \<noteq> 0 \<or>
            (0 :: ulong) = 0 \<and> mask udp_close_probe AND loaded_probes ?s = 0"
    unfolding s by (simp add: udp_close_probe_def PROBE_defs init_state_def)
  from one_probe_param_set_idempotent [OF refl tcp p1 _ on] one_probe_param_set_idempotent [OF refl udp p0 _ off]
  show ?thesis unfolding s by (simp add: init_state_def)
qed

end
